theory Spec2Isabelle
  imports Main "HOL-Library.Sublist"
begin

section \<open>The command runner of qutebrowser (commands/runners.py)\<close>

text \<open>
  A shallow embedding of \<^verbatim>\<open>src/qutebrowser/commands/runners.py\<close>: the helper functions
  \<^verbatim>\<open>_current_url\<close> and \<^verbatim>\<open>replace_variables\<close> and the class \<^verbatim>\<open>CommandRunner\<close>
  (\<^verbatim>\<open>_get_alias\<close>, \<^verbatim>\<open>parse_all\<close>, \<^verbatim>\<open>_parse_count\<close>, \<^verbatim>\<open>_parse_fallback\<close>,
  \<^verbatim>\<open>parse\<close>, \<^verbatim>\<open>_completion_match\<close>, \<^verbatim>\<open>_split_args\<close>, \<^verbatim>\<open>run\<close>).
  Python identifiers with a leading underscore lose it, since an Isabelle name cannot
  start with one. Every exception of the source is a value of the type \<open>error\<close>.
\<close>

subsection \<open>Python string operations used by the module\<close>

text \<open>
  A Python \<^verbatim>\<open>str\<close> is modelled as a \<open>string\<close> of ASCII characters. The whitespace of
  \<^verbatim>\<open>str.split()\<close> and \<^verbatim>\<open>str.strip()\<close> is then the ASCII part of \<^verbatim>\<open>str.isspace\<close>: the
  codes 9 to 13 and 28 to 32.
\<close>

definition is_space :: "char \<Rightarrow> bool" where
  "is_space c = (let n = (of_char c :: nat) in (9 \<le> n \<and> n \<le> 13) \<or> (28 \<le> n \<and> n \<le> 32))"

definition lstrip :: "string \<Rightarrow> string" where
  "lstrip s = dropWhile is_space s"

definition rstrip :: "string \<Rightarrow> string" where
  "rstrip s = rev (dropWhile is_space (rev s))"

definition strip :: "string \<Rightarrow> string" where
  "strip s = rstrip (lstrip s)"

text \<open>\<^verbatim>\<open>s.partition(c)\<close> for a one-character separator: the part before the first
  occurrence, the separator (empty when it does not occur), the part after it.\<close>

definition partition_str :: "string \<Rightarrow> char \<Rightarrow> string \<times> string \<times> string" where
  "partition_str s c =
     (case dropWhile (\<lambda>x. x \<noteq> c) s of
        [] \<Rightarrow> (s, [], [])
      | x # after \<Rightarrow> (takeWhile (\<lambda>x. x \<noteq> c) s, [x], after))"

text \<open>\<^verbatim>\<open>s.split()\<close>: the maximal runs of non-whitespace characters.\<close>

fun split_ws_from :: "string \<Rightarrow> string \<Rightarrow> string list" where
  "split_ws_from acc [] = (if acc = [] then [] else [rev acc])"
| "split_ws_from acc (c # cs) =
     (if is_space c then (if acc = [] then split_ws_from [] cs else rev acc # split_ws_from [] cs)
      else split_ws_from (c # acc) cs)"

definition split_ws :: "string \<Rightarrow> string list" where
  "split_ws s = split_ws_from [] s"

text \<open>\<^verbatim>\<open>s.split(maxsplit=1)\<close>: the first word, and what follows the whitespace after it
  when that is not empty (the remainder is not stripped on the right).\<close>

definition split_ws_maxsplit1 :: "string \<Rightarrow> string list" where
  "split_ws_maxsplit1 s =
     (let s' = lstrip s in
      if s' = [] then []
      else (let w = takeWhile (\<lambda>c. \<not> is_space c) s';
                r = lstrip (dropWhile (\<lambda>c. \<not> is_space c) s')
            in if r = [] then [w] else [w, r]))"

text \<open>\<^verbatim>\<open>';;' in s\<close> and \<^verbatim>\<open>s.split(';;')\<close>: occurrences are found from the left and do
  not overlap. The result of the split is never empty.\<close>

fun contains_chain :: "string \<Rightarrow> bool" where
  "contains_chain (a # b # cs) = ((a = CHR '';'' \<and> b = CHR '';'') \<or> contains_chain (b # cs))"
| "contains_chain _ = False"

fun split_chain_from :: "string \<Rightarrow> string \<Rightarrow> string list" where
  "split_chain_from acc (a # b # cs) =
     (if a = CHR '';'' \<and> b = CHR '';'' then rev acc # split_chain_from [] cs
      else split_chain_from (a # acc) (b # cs))"
| "split_chain_from acc [a] = [rev (a # acc)]"
| "split_chain_from acc [] = [rev acc]"

definition split_chain :: "string \<Rightarrow> string list" where
  "split_chain s = split_chain_from [] s"

definition endswith :: "string \<Rightarrow> char \<Rightarrow> bool" where
  "endswith s c = (s \<noteq> [] \<and> last s = c)"

definition startswith :: "string \<Rightarrow> char \<Rightarrow> bool" where
  "startswith s c = (case s of [] \<Rightarrow> False | x # _ \<Rightarrow> x = c)"

text \<open>
  \<^verbatim>\<open>int(s)\<close> on ASCII text: whitespace around the number (for \<^verbatim>\<open>int\<close> the codes 9 to
  13 and 32 only), an optional sign, then decimal digits, where single underscores may
  stand between two digits. \<open>None\<close> stands for the \<^verbatim>\<open>ValueError\<close>, which the only
  caller catches.
\<close>

definition is_int_space :: "char \<Rightarrow> bool" where
  "is_int_space c = (let n = (of_char c :: nat) in (9 \<le> n \<and> n \<le> 13) \<or> n = 32)"

definition int_strip :: "string \<Rightarrow> string" where
  "int_strip s = rev (dropWhile is_int_space (rev (dropWhile is_int_space s)))"

definition is_digit :: "char \<Rightarrow> bool" where
  "is_digit c = (let n = (of_char c :: nat) in 48 \<le> n \<and> n \<le> 57)"

fun digit_groups :: "string \<Rightarrow> bool" where
  "digit_groups [] = False"
| "digit_groups [c] = is_digit c"
| "digit_groups (c # d # cs) =
     (is_digit c \<and> (if d = CHR ''_'' then digit_groups cs else digit_groups (d # cs)))"

definition digits_value :: "string \<Rightarrow> int" where
  "digits_value ds = foldl (\<lambda>a c. 10 * a + (of_char c - 48)) 0 ds"

definition py_int :: "string \<Rightarrow> int option" where
  "py_int s =
     (let t = int_strip s;
          neg = startswith t CHR ''-'';
          ds = (if startswith t CHR ''-'' \<or> startswith t CHR ''+'' then tl t else t)
      in if digit_groups ds
         then (let v = digits_value (filter (\<lambda>c. c \<noteq> CHR ''_'') ds)
               in Some (if neg then - v else v))
         else None)"

text \<open>
  \<^verbatim>\<open>str(n)\<close> for an integer: its decimal numeral. The module does not call it; it
  serves to say which count \<^verbatim>\<open>int\<close> reads from a prefix that is written as an integer.
\<close>

fun digits_of :: "nat \<Rightarrow> string" where
  "digits_of n =
     (if n < 10 then [char_of (48 + n)]
      else digits_of (n div 10) @ [char_of (48 + n mod 10)])"

declare digits_of.simps [simp del]

definition str_int :: "int \<Rightarrow> string" where
  "str_int n = (if n < 0 then CHR ''-'' # digits_of (nat (- n)) else digits_of (nat n))"

subsection \<open>Data model\<close>

text \<open>The exceptions that can leave the module. \<open>CommandFailure\<close> stands for whatever an
  invoked command raises by itself.\<close>

datatype error =
    NoSuchCommandError string
  | CommandMetaError string
  | CommandError string
  | IndexError
  | AttributeError
  | TypeError
  | CommandFailure string

text \<open>A registered command: a name to tell commands apart, and what the module reads of
  it (\<^verbatim>\<open>cmd.maxsplit\<close>, \<^verbatim>\<open>cmd.flags_with_args\<close>, \<^verbatim>\<open>cmd.no_cmd_split\<close>). \<open>maxsplit\<close> is
  \<open>None\<close> or a number of splits.\<close>

record command =
  name :: string
  maxsplit :: "nat option"
  flags_with_args :: "string list"
  no_cmd_split :: bool

text \<open>\<^verbatim>\<open>ParseResult = namedtuple('ParseResult', ['cmd', 'args', 'cmdline', 'count'])\<close>\<close>

record parse_result =
  cmd :: "command option"
  args :: "string list option"
  cmdline :: "string list"
  count :: "int option"

text \<open>
  The URL of the current page is a \<^verbatim>\<open>QUrl\<close> of Qt. Of a URL with an authority the model
  keeps the scheme, the user name and the password of the user info, and what follows the
  user info (host, port, path, query and fragment). The module passes two formatting
  options to \<^verbatim>\<open>toString\<close>.
\<close>

record qurl =
  scheme :: string
  user_name :: string
  password :: string
  host_path :: string

datatype format_option = FullyEncoded | RemovePassword

text \<open>The state that \<^verbatim>\<open>run\<close> reads and writes: the mode of the mode manager, the
  module-level dictionary \<^verbatim>\<open>last_command\<close>, and the current URL of the tabbed browser,
  which is either a URL or the reason of a \<^verbatim>\<open>QtValueError\<close>.\<close>

record world =
  mode :: string
  last_command :: "string \<rightharpoonup> (string \<times> int option)"
  tabbed_browser_url :: "string option + qurl"

text \<open>
  The collaborators of the module, which live in other modules, are parameters:
  the alias section of the configuration (\<open>None\<close> is \<^verbatim>\<open>NoOptionError\<close> or
  \<^verbatim>\<open>NoSectionError\<close>), the command registry \<^verbatim>\<open>cmdutils.cmd_dict\<close> (an association list
  read as the dictionary it denotes), the attribute \<^verbatim>\<open>_partial_match\<close>, the two
  functions of \<^verbatim>\<open>qutebrowser.misc.split\<close>, the percent-encoding of Qt (the text of a
  URL component, fully encoded when the flag is set and decoded for reading otherwise), and
  the effect of \<^verbatim>\<open>cmd.run\<close> on the state (with the exception it raises, if any). The registry and
  the alias table stay as they are while a line runs.
\<close>

record env =
  config_aliases :: "string \<rightharpoonup> string"
  cmd_dict :: "(string \<times> command) list"
  partial_match :: bool
  split_split :: "string \<Rightarrow> bool \<Rightarrow> string list"
  split_simple_split :: "string \<Rightarrow> bool \<Rightarrow> nat option \<Rightarrow> string list"
  encode_component :: "bool \<Rightarrow> string \<Rightarrow> string"
  cmd_run :: "command \<Rightarrow> string list \<Rightarrow> int option \<Rightarrow> world \<Rightarrow> error option \<times> world"

subsection \<open>The parser\<close>

text \<open>\<^verbatim>\<open>_get_alias\<close>: \<^verbatim>\<open>parts[0]\<close> is outside the \<^verbatim>\<open>try\<close> blocks' reach for
  \<^verbatim>\<open>IndexError\<close> (only the configuration errors are caught there), \<^verbatim>\<open>parts[1]\<close> is
  inside.\<close>

definition get_alias :: "env \<Rightarrow> string \<Rightarrow> error + string option" where
  "get_alias env text =
     (case split_ws_maxsplit1 (strip text) of
        [] \<Rightarrow> Inl IndexError
      | p0 # rest \<Rightarrow>
          (case config_aliases env p0 of
             None \<Rightarrow> Inr None
           | Some alias \<Rightarrow>
               (let new_cmd = (case rest of [] \<Rightarrow> alias | p1 # _ \<Rightarrow> alias @ '' '' @ p1)
                in Inr (Some (if endswith text CHR '' '' then new_cmd @ '' '' else new_cmd)))))"

text \<open>\<^verbatim>\<open>_parse_count\<close>\<close>

definition parse_count :: "string \<Rightarrow> int option \<times> string" where
  "parse_count cmdstr =
     (if CHR '':'' \<notin> set cmdstr then (None, cmdstr)
      else (py_int (takeWhile (\<lambda>x. x \<noteq> CHR '':'') cmdstr),
            tl (dropWhile (\<lambda>x. x \<noteq> CHR '':'') cmdstr)))"

text \<open>\<^verbatim>\<open>_parse_fallback\<close>\<close>

definition parse_fallback :: "string \<Rightarrow> int option \<Rightarrow> bool \<Rightarrow> parse_result" where
  "parse_fallback text cnt keep =
     (let cl = (if keep
                then (case partition_str text CHR '' '' of
                        (cmdstr, sep, argstr) \<Rightarrow> [cmdstr, sep] @ split_ws argstr)
                else split_ws text)
      in \<lparr>cmd = None, args = None, cmdline = cl, count = cnt\<rparr>)"

text \<open>\<^verbatim>\<open>_completion_match\<close>: \<^verbatim>\<open>valid_command.find(cmdstr) == 0\<close> says that \<^verbatim>\<open>cmdstr\<close>
  is a prefix of the name.\<close>

definition completion_match :: "env \<Rightarrow> string \<Rightarrow> string" where
  "completion_match env cmdstr =
     (let matches = filter (\<lambda>valid_command. prefix cmdstr valid_command)
                      (remdups (map fst (cmd_dict env)))
      in if length matches = 1 then hd matches else cmdstr)"

text \<open>\<^verbatim>\<open>_split_args\<close>. The loop over \<^verbatim>\<open>enumerate(split_args)\<close> returns the
  \<^verbatim>\<open>maxsplit\<close> of the second split at the first argument that is not a flag, and
  \<open>None\<close> when it runs to the end.\<close>

fun first_non_flag :: "command \<Rightarrow> nat \<Rightarrow> string list \<Rightarrow> nat \<Rightarrow> nat \<Rightarrow> nat option" where
  "first_non_flag c n [] i flag_arg_count = None"
| "first_non_flag c n (a # rest) i flag_arg_count =
     (let arg = strip a in
      if startswith arg CHR ''-''
      then first_non_flag c n rest (i + 1)
             (if arg \<in> set (flags_with_args c) then flag_arg_count + 1 else flag_arg_count)
      else Some (i + n + flag_arg_count))"

definition split_args :: "env \<Rightarrow> command \<Rightarrow> string \<Rightarrow> bool \<Rightarrow> string list" where
  "split_args env c argstr keep =
     (if argstr = [] then []
      else (case maxsplit c of
              None \<Rightarrow> split_split env argstr keep
            | Some n \<Rightarrow>
                (let first_split = split_simple_split env argstr keep None
                 in (case first_non_flag c n first_split 0 0 of
                       Some m \<Rightarrow> split_simple_split env argstr keep (Some m)
                     | None \<Rightarrow> first_split))))"

text \<open>\<^verbatim>\<open>parse\<close>, from the lookup in the registry on (lines 189 to 208).\<close>

definition parse_command ::
  "env \<Rightarrow> string \<Rightarrow> string \<Rightarrow> string \<Rightarrow> string \<Rightarrow> int option \<Rightarrow> bool \<Rightarrow> bool
     \<Rightarrow> error + parse_result" where
  "parse_command env text cmdstr0 sep argstr cnt fallback keep =
     (let cmdstr = (if partial_match env then completion_match env cmdstr0 else cmdstr0) in
      case map_of (cmd_dict env) cmdstr of
        None \<Rightarrow>
          (if \<not> fallback then Inl (NoSuchCommandError (cmdstr @ '': no such command''))
           else Inr (parse_fallback text cnt keep))
      | Some c \<Rightarrow>
          (let as = split_args env c argstr keep;
               cl = (if keep \<and> as \<noteq> [] then [cmdstr, sep @ hd as] @ tl as
                     else if keep then [cmdstr, sep]
                     else [cmdstr] @ as)
           in Inr \<lparr>cmd = Some c, args = Some as, cmdline = cl, count = cnt\<rparr>))"

text \<open>\<^verbatim>\<open>parse\<close>. The only recursive call passes \<^verbatim>\<open>aliases=False\<close>.\<close>

function parse :: "env \<Rightarrow> string \<Rightarrow> bool \<Rightarrow> bool \<Rightarrow> bool \<Rightarrow> error + parse_result" where
  "parse env text aliases fallback keep =
     (case partition_str text CHR '' '' of
        (cmdstr0, sep, argstr) \<Rightarrow>
          (case parse_count cmdstr0 of
             (cnt, cmdstr) \<Rightarrow>
               if cmdstr = [] \<and> \<not> fallback then Inl (NoSuchCommandError ''No command given'')
               else if aliases then
                 (case get_alias env text of
                    Inl e \<Rightarrow> Inl e
                  | Inr (Some new_cmd) \<Rightarrow> parse env new_cmd False fallback keep
                  | Inr None \<Rightarrow> parse_command env text cmdstr sep argstr cnt fallback keep)
               else parse_command env text cmdstr sep argstr cnt fallback keep))"
  by pat_completeness auto
termination
  by (relation "measure (\<lambda>(env, text, aliases, fallback, keep). if aliases then 1 else 0)") auto

declare parse.simps [simp del]

subsection \<open>Chained commands\<close>

text \<open>
  \<^verbatim>\<open>parse_all\<close> is a generator. \<open>sub_texts\<close> is its part before the loop, which runs
  when the first item is asked for; \<open>parse_each\<close> is the loop. The generator is
  modelled by the results it yields before it stops, and the exception that stops it,
  if any.
\<close>

definition sub_texts :: "env \<Rightarrow> string \<Rightarrow> bool \<Rightarrow> bool \<Rightarrow> bool \<Rightarrow> error + string list" where
  "sub_texts env text aliases fallback keep =
     (if contains_chain text then
        (case split_chain text of
           [] \<Rightarrow> Inl IndexError
         | first # _ \<Rightarrow>
             (case parse env first aliases fallback keep of
                Inl e \<Rightarrow> Inl e
              | Inr result \<Rightarrow>
                  (case cmd result of
                     None \<Rightarrow> Inl AttributeError
                   | Some c \<Rightarrow>
                       if no_cmd_split c then Inr [text]
                       else Inr (map strip (split_chain text)))))
      else Inr [text])"

fun parse_each ::
  "env \<Rightarrow> bool \<Rightarrow> bool \<Rightarrow> bool \<Rightarrow> string list \<Rightarrow> parse_result list \<times> error option" where
  "parse_each env aliases fallback keep [] = ([], None)"
| "parse_each env aliases fallback keep (sub # subs) =
     (case parse env sub aliases fallback keep of
        Inl e \<Rightarrow> ([], Some e)
      | Inr result \<Rightarrow>
          (case parse_each env aliases fallback keep subs of
             (results, e) \<Rightarrow> (result # results, e)))"

definition parse_all ::
  "env \<Rightarrow> string \<Rightarrow> bool \<Rightarrow> bool \<Rightarrow> bool \<Rightarrow> parse_result list \<times> error option" where
  "parse_all env text aliases fallback keep =
     (case sub_texts env text aliases fallback keep of
        Inl e \<Rightarrow> ([], Some e)
      | Inr subs \<Rightarrow> parse_each env aliases fallback keep subs)"

subsection \<open>Variable substitution\<close>

text \<open>
  \<^verbatim>\<open>QUrl.toString\<close> with a set of options, as Qt documents them: \<^verbatim>\<open>FullyEncoded\<close>
  chooses the encoding of every component, \<^verbatim>\<open>RemovePassword\<close> leaves the password out, and
  nothing else of the user info; the user info is followed by \<^verbatim>\<open>@\<close> when there is
  one.
\<close>

definition toString :: "env \<Rightarrow> qurl \<Rightarrow> format_option set \<Rightarrow> string" where
  "toString env u options =
     (let enc = encode_component env (FullyEncoded \<in> options);
          user_info = enc (user_name u)
            @ (if password u \<noteq> [] \<and> RemovePassword \<notin> options then '':'' @ enc (password u)
               else [])
      in enc (scheme u) @ ''://'' @ (if user_info = [] then [] else user_info @ ''@'')
           @ enc (host_path u))"

text \<open>\<^verbatim>\<open>_current_url\<close>: a falsy reason (\<^verbatim>\<open>None\<close> or the empty string) adds nothing to
  the message.\<close>

definition current_url :: "world \<Rightarrow> error + qurl" where
  "current_url w =
     (case tabbed_browser_url w of
        Inr u \<Rightarrow> Inr u
      | Inl reason \<Rightarrow>
          Inl (CommandError (''Current URL is invalid''
                 @ (case reason of
                      None \<Rightarrow> []
                    | Some r \<Rightarrow> if r \<noteq> [] then '' ('' @ r @ '')'' else [])
                 @ ''!'')))"

text \<open>\<^verbatim>\<open>replace_variables\<close>: the two local variables are bound only when their
  placeholder is in the list, and read only then; the model binds them to the empty string
  otherwise.\<close>

definition replace_variables :: "env \<Rightarrow> world \<Rightarrow> string list \<Rightarrow> error + string list" where
  "replace_variables env w arglist =
     (case (if ''{url}'' \<in> set arglist
            then (case current_url w of
                    Inl e \<Rightarrow> Inl e
                  | Inr u \<Rightarrow> Inr (toString env u {FullyEncoded, RemovePassword}))
            else Inr []) of
        Inl e \<Rightarrow> Inl e
      | Inr url \<Rightarrow>
          (case (if ''{url:pretty}'' \<in> set arglist
                 then (case current_url w of
                         Inl e \<Rightarrow> Inl e
                       | Inr u \<Rightarrow> Inr (toString env u {RemovePassword}))
                 else Inr []) of
             Inl e \<Rightarrow> Inl e
           | Inr pretty_url \<Rightarrow>
               Inr (map (\<lambda>arg. if arg = ''{url}'' then url
                                else if arg = ''{url:pretty}'' then pretty_url
                                else arg) arglist)))"

subsection \<open>Dispatch\<close>

text \<open>
  The body of the loop of \<^verbatim>\<open>run\<close> for one parse result. The result is the exception
  that leaves the body, if any, and the state at that moment. \<^verbatim>\<open>cmd.run\<close> gets the
  count \<open>None\<close> when the source passes none.
\<close>

definition resolved_count :: "int option \<Rightarrow> parse_result \<Rightarrow> int option" where
  "resolved_count cnt result = (if cnt \<noteq> None then cnt else count result)"

text \<open>Lines 289 to 295: what follows the return of \<^verbatim>\<open>cmd.run\<close>, given the exception
  it raised, if any, and the state it left.\<close>

definition record_last_command ::
  "string \<Rightarrow> int option \<Rightarrow> parse_result \<Rightarrow> error option \<times> world \<Rightarrow> error option \<times> world" where
  "record_last_command text cnt result outcome =
     (case outcome of
        (Some e, w') \<Rightarrow> (Some e, w')
      | (None, w') \<Rightarrow>
          (case cmdline result of
             [] \<Rightarrow> (Some IndexError, w')
           | first # _ \<Rightarrow>
               if first \<notin> set [''leave-mode'', ''command-accept'', ''repeat-command'']
               then (None, w'\<lparr>last_command := (last_command w')
                       (mode w' \<mapsto> (snd (parse_count text), resolved_count cnt result))\<rparr>)
               else (None, w')))"

definition dispatch ::
  "env \<Rightarrow> string \<Rightarrow> int option \<Rightarrow> parse_result \<Rightarrow> world \<Rightarrow> error option \<times> world" where
  "dispatch env text cnt result w =
     (case (case args result of
              None \<Rightarrow> Inl TypeError
            | Some arglist \<Rightarrow> replace_variables env w arglist) of
        Inl e \<Rightarrow> (Some e, w)
      | Inr as \<Rightarrow>
          if cnt \<noteq> None \<and> count result \<noteq> None
          then (Some (CommandMetaError ''Got count via command and prefix!''), w)
          else
            (case cmd result of
               None \<Rightarrow> (Some AttributeError, w)
             | Some c \<Rightarrow>
                 record_last_command text cnt result
                   (cmd_run env c as (resolved_count cnt result) w)))"

text \<open>\<^verbatim>\<open>run\<close>: each sub-text is parsed when the loop reaches it, as the generator
  does.\<close>

fun run_each :: "env \<Rightarrow> string \<Rightarrow> int option \<Rightarrow> string list \<Rightarrow> world \<Rightarrow> error option \<times> world" where
  "run_each env text cnt [] w = (None, w)"
| "run_each env text cnt (sub # subs) w =
     (case parse env sub True False False of
        Inl e \<Rightarrow> (Some e, w)
      | Inr result \<Rightarrow>
          (case dispatch env text cnt result w of
             (Some e, w') \<Rightarrow> (Some e, w')
           | (None, w') \<Rightarrow> run_each env text cnt subs w'))"

definition run :: "env \<Rightarrow> string \<Rightarrow> int option \<Rightarrow> world \<Rightarrow> error option \<times> world" where
  "run env text cnt w =
     (case sub_texts env text True False False of
        Inl e \<Rightarrow> (Some e, w)
      | Inr subs \<Rightarrow> run_each env text cnt subs w)"

subsection \<open>The splitter, and a registry for the examples\<close>

text \<open>
  Modelled from the spec: \<^verbatim>\<open>simple_split\<close> of \<^verbatim>\<open>qutebrowser.misc.split\<close>, which is not
  under \<^verbatim>\<open>src/\<close>. The spec gives it as
  \<^verbatim>\<open>simpleSplit(text, keep, maxsplit=unbounded)\<close>, splitting at whitespace, where a bound
  "limits how many times the argument string is divided, so later words remain joined
  verbatim in the final token" and \<^verbatim>\<open>keep\<close> keeps the whitespace. The comment in
  \<^verbatim>\<open>_split_args\<close> agrees: \<^verbatim>\<open>maxsplit=2\<close> turns \<^verbatim>\<open>"--foo -v bar baz"\<close> into the three
  tokens \<^verbatim>\<open>['--foo', '-v', 'bar baz']\<close>. With \<^verbatim>\<open>keep\<close>, the whitespace before a token
  stays at its front.
\<close>

function simple_split_from :: "bool \<Rightarrow> nat option \<Rightarrow> string \<Rightarrow> string \<Rightarrow> string list" where
  "simple_split_from keep lim ws [] = (if keep \<and> ws \<noteq> [] then [rev ws] else [])"
| "simple_split_from keep lim ws (c # cs) =
     (if is_space c then simple_split_from keep lim (c # ws) cs
      else if lim = Some 0
      then [if keep then rev ws @ c # cs else rstrip (c # cs)]
      else ((if keep then rev ws else []) @ c # takeWhile (\<lambda>x. \<not> is_space x) cs)
             # simple_split_from keep (map_option (\<lambda>n. n - 1) lim) []
                 (dropWhile (\<lambda>x. \<not> is_space x) cs))"
  by pat_completeness auto
termination
  by (relation "measure (\<lambda>(keep, lim, ws, s). length s)")
    (auto simp: length_dropWhile_le less_Suc_eq_le)

definition simple_split :: "string \<Rightarrow> bool \<Rightarrow> nat option \<Rightarrow> string list" where
  "simple_split s keep lim = simple_split_from keep lim [] s"

text \<open>
  A registry, an alias table and a state for the examples. \<open>foo\<close> is the command of the
  spec's bounded-split example (\<^verbatim>\<open>maxSplit=1\<close>, \<^verbatim>\<open>-v\<close> a flag with an argument). The
  examples contain no quotes, so the full split is the unbounded simple split there. Of
  the percent-encoding the examples need the space only. Commands leave the state as it
  is. The page of \<open>login_world\<close> is \<^verbatim>\<open>https://a:b@example.com/p\<close>.
\<close>

definition foo_cmd :: command where
  "foo_cmd = \<lparr>name = ''foo'', maxsplit = Some 1, flags_with_args = [''-v''],
              no_cmd_split = False\<rparr>"

definition open_cmd :: command where
  "open_cmd = \<lparr>name = ''open'', maxsplit = None, flags_with_args = [], no_cmd_split = False\<rparr>"

definition quit_cmd :: command where
  "quit_cmd = \<lparr>name = ''quit'', maxsplit = None, flags_with_args = [], no_cmd_split = False\<rparr>"

definition leave_mode_cmd :: command where
  "leave_mode_cmd = \<lparr>name = ''leave-mode'', maxsplit = None, flags_with_args = [],
                     no_cmd_split = False\<rparr>"

definition bind_cmd :: command where
  "bind_cmd = \<lparr>name = ''bind'', maxsplit = Some 1, flags_with_args = [],
               no_cmd_split = True\<rparr>"

definition example_env :: env where
  "example_env =
     \<lparr>config_aliases = [''gq'' \<mapsto> ''quit''],
      cmd_dict = [(''foo'', foo_cmd), (''open'', open_cmd), (''quit'', quit_cmd),
                  (''leave-mode'', leave_mode_cmd), (''bind'', bind_cmd)],
      partial_match = False,
      split_split = (\<lambda>s keep. simple_split s keep None),
      split_simple_split = simple_split,
      encode_component =
        (\<lambda>full s. if full then concat (map (\<lambda>c. if c = CHR '' '' then ''%20'' else [c]) s) else s),
      cmd_run = (\<lambda>c as cnt w. (None, w))\<rparr>"

definition normal_world :: world where
  "normal_world = \<lparr>mode = ''normal'', last_command = Map.empty,
                    tabbed_browser_url =
                      Inr \<lparr>scheme = ''https'', user_name = [], password = [],
                           host_path = ''example.com/a b''\<rparr>\<rparr>"

definition login_world :: world where
  "login_world = \<lparr>mode = ''normal'', last_command = Map.empty,
                   tabbed_browser_url =
                     Inr \<lparr>scheme = ''https'', user_name = ''a'', password = ''b'',
                          host_path = ''example.com/p''\<rparr>\<rparr>"

definition no_url_world :: world where
  "no_url_world = \<lparr>mode = ''normal'', last_command = Map.empty,
                    tabbed_browser_url = Inl None\<rparr>"

section \<open>Properties\<close>

subsection \<open>Unfolding and evaluation\<close>

lemmas string_defs = is_space_def lstrip_def rstrip_def strip_def partition_str_def split_ws_def
  split_ws_maxsplit1_def split_chain_def endswith_def startswith_def is_digit_def
  is_int_space_def int_strip_def digits_value_def py_int_def

lemmas parser_defs = get_alias_def parse_count_def parse_fallback_def completion_match_def
  split_args_def parse_command_def parse.simps sub_texts_def parse_all_def Let_def

lemmas example_defs = simple_split_def foo_cmd_def open_cmd_def quit_cmd_def leave_mode_cmd_def
  bind_cmd_def example_env_def normal_world_def no_url_world_def login_world_def

text \<open>The body of \<^verbatim>\<open>parse\<close>, once the text is partitioned and the count split off.\<close>

lemma parse_unfold:
  assumes "partition_str t CHR '' '' = (cmdstr0, sep, argstr)"
    and "parse_count cmdstr0 = (cnt, cmdstr)"
  shows "parse env t aliases fallback keep =
     (if cmdstr = [] \<and> \<not> fallback then Inl (NoSuchCommandError ''No command given'')
      else if aliases then
        (case get_alias env t of
           Inl e \<Rightarrow> Inl e
         | Inr (Some new_cmd) \<Rightarrow> parse env new_cmd False fallback keep
         | Inr None \<Rightarrow> parse_command env t cmdstr sep argstr cnt fallback keep)
      else parse_command env t cmdstr sep argstr cnt fallback keep)"
  by (subst parse.simps) (simp add: assms)

subsection \<open>The invariant of parse results\<close>

lemma parse_command_invariant:
  "parse_command env t cmdstr sep argstr cnt fallback keep = Inr r \<Longrightarrow> cmd r = None
     \<Longrightarrow> args r = None"
  by (auto simp: parse_command_def parse_fallback_def Let_def split: option.splits if_splits)

lemma parse_invariant:
  "parse env t aliases fallback keep = Inr r \<Longrightarrow> cmd r = None \<Longrightarrow> args r = None"
proof (induction env t aliases fallback keep rule: parse.induct)
  case (1 env t aliases fallback keep)
  obtain cmdstr0 sep argstr where p: "partition_str t CHR '' '' = (cmdstr0, sep, argstr)"
    by (cases "partition_str t CHR '' ''") auto
  obtain cnt cmdstr where c: "parse_count cmdstr0 = (cnt, cmdstr)"
    by (cases "parse_count cmdstr0") auto
  note eq = parse_unfold [OF p c, of env aliases fallback keep]
  from "1.prems"(1) have ne: "\<not> (cmdstr = [] \<and> \<not> fallback)"
    unfolding eq by (auto split: if_splits)
  show ?case
  proof (cases "aliases \<and> (\<exists>new_cmd. get_alias env t = Inr (Some new_cmd))")
    case True
    then obtain new_cmd where a: aliases and g: "get_alias env t = Inr (Some new_cmd)"
      by blast
    from "1.prems"(1) have "parse env new_cmd False fallback keep = Inr r"
      unfolding eq using ne a g by simp
    then show ?thesis
      using "1.IH" p c ne a g "1.prems"(2) by auto
  next
    case False
    with "1.prems"(1) ne
    have "parse_command env t cmdstr sep argstr cnt fallback keep = Inr r"
      unfolding eq by (auto split: if_splits sum.splits option.splits)
    then show ?thesis using "1.prems"(2) by (rule parse_command_invariant)
  qed
qed

lemma parse_each_invariant:
  "r \<in> set (fst (parse_each env aliases fallback keep subs)) \<Longrightarrow> cmd r = None
     \<Longrightarrow> args r = None"
proof (induction subs)
  case Nil
  then show ?case by simp
next
  case (Cons sub subs)
  then show ?case
    by (auto split: sum.splits prod.splits dest: parse_invariant)
qed

text \<open>
  Claim C10. Every parse result that \<^verbatim>\<open>parse\<close> returns, and every one that
  \<^verbatim>\<open>parse_all\<close> yields before it stops, under every combination of the options, has no
  arguments when it has no command: \<^verbatim>\<open>cmd = None\<close> implies \<^verbatim>\<open>args = None\<close>.
\<close>

theorem parse_result_invariant:
  "(parse env t aliases fallback keep = Inr r \<longrightarrow> cmd r = None \<longrightarrow> args r = None) \<and>
   (\<forall>r' \<in> set (fst (parse_all env t aliases fallback keep)).
      cmd r' = None \<longrightarrow> args r' = None)"
proof (intro conjI impI ballI)
  assume "parse env t aliases fallback keep = Inr r" "cmd r = None"
  then show "args r = None" by (rule parse_invariant)
next
  fix r'
  assume "r' \<in> set (fst (parse_all env t aliases fallback keep))" "cmd r' = None"
  then show "args r' = None"
    by (auto simp: parse_all_def split: sum.splits dest: parse_each_invariant)
qed

text \<open>The invariant at work: an unknown command parsed with \<^verbatim>\<open>fallback=True\<close>.\<close>

theorem parse_result_invariant_witness:
  "parse example_env ''nosuch x'' True True False = Inr (parse_fallback ''nosuch x'' None False) \<and>
   parse_fallback ''nosuch x'' None False
     \<in> set (fst (parse_all example_env ''nosuch x'' True True False)) \<and>
   cmd (parse_fallback ''nosuch x'' None False) = None \<and>
   args (parse_fallback ''nosuch x'' None False) = None"
proof -
  let ?r = "parse_fallback ''nosuch x'' None False"
  have p: "parse example_env ''nosuch x'' True True False = Inr ?r"
    by (simp add: string_defs parser_defs example_defs)
  have m: "?r \<in> set (fst (parse_all example_env ''nosuch x'' True True False))"
    by (simp add: parse_all_def sub_texts_def p)
  have c: "cmd ?r = None"
    by (simp add: parse_fallback_def)
  from parse_result_invariant [of example_env "''nosuch x''" True True False ?r] p c
  have "args ?r = None" by blast
  with p m c show ?thesis by simp
qed

subsection \<open>The empty command\<close>

text \<open>
  Claim C9. For every text whose command token is empty after the partition on the first
  space and the removal of a count prefix, as for the texts \<^verbatim>\<open>""\<close> and \<^verbatim>\<open>" "\<close>,
  \<^verbatim>\<open>parse\<close> with \<^verbatim>\<open>fallback=False\<close> fails with the error \<^verbatim>\<open>NoSuchCommandError\<close> and
  the message "No command given".
\<close>

theorem parse_no_command_given:
  assumes "snd (parse_count (fst (partition_str t CHR '' ''))) = []"
  shows "parse env t aliases False keep = Inl (NoSuchCommandError ''No command given'')"
  using assms by (subst parse.simps) (auto split: prod.splits)

theorem parse_no_command_given_witness:
  "snd (parse_count (fst (partition_str [] CHR '' ''))) = [] \<and>
   parse example_env [] True False False = Inl (NoSuchCommandError ''No command given'') \<and>
   snd (parse_count (fst (partition_str '' '' CHR '' ''))) = [] \<and>
   parse example_env '' '' True False False = Inl (NoSuchCommandError ''No command given'')"
proof -
  have e: "snd (parse_count (fst (partition_str [] CHR '' ''))) = []"
    by (simp add: partition_str_def parse_count_def)
  have b: "snd (parse_count (fst (partition_str '' '' CHR '' ''))) = []"
    by (simp add: partition_str_def parse_count_def)
  show ?thesis
    using e b parse_no_command_given [OF e, of example_env True False]
      parse_no_command_given [OF b, of example_env True False]
    by simp
qed

subsection \<open>The count prefix\<close>

text \<open>A registered name is its own completion: it is among the matches, so it is the
  match when there is exactly one.\<close>

lemma completion_match_registered:
  assumes "map_of (cmd_dict env) s = Some c"
  shows "completion_match env s = s"
proof -
  let ?matches = "filter (\<lambda>valid_command. prefix s valid_command) (remdups (map fst (cmd_dict env)))"
  from assms have "s \<in> set (map fst (cmd_dict env))"
    by (metis map_of_eq_None_iff option.distinct(1) set_map)
  then have m: "s \<in> set ?matches" by simp
  show ?thesis
  proof (cases "length ?matches = 1")
    case True
    then obtain x where x: "?matches = [x]"
      by (cases ?matches) auto
    with m have "x = s" by (metis empty_iff empty_set set_ConsD)
    with x True show ?thesis by (simp add: completion_match_def)
  next
    case False
    then show ?thesis by (simp add: completion_match_def)
  qed
qed

lemma parse_command_registered:
  assumes "map_of (cmd_dict env) s = Some c"
  shows "parse_command env t s sep argstr cnt fallback keep =
    Inr \<lparr>cmd = Some c, args = Some (split_args env c argstr keep),
         cmdline = (if keep \<and> split_args env c argstr keep \<noteq> []
                    then [s, sep @ hd (split_args env c argstr keep)] @ tl (split_args env c argstr keep)
                    else if keep then [s, sep] else [s] @ split_args env c argstr keep),
         count = cnt\<rparr>"
  using assms by (simp add: parse_command_def completion_match_registered Let_def)

lemma parse_count_colon:
  assumes "CHR '':'' \<notin> set p"
  shows "parse_count (p @ CHR '':'' # rest) = (py_int p, rest)"
proof -
  from assms have n: "\<And>x. x \<in> set p \<Longrightarrow> x \<noteq> CHR '':''"
    by auto
  have "takeWhile (\<lambda>x. x \<noteq> CHR '':'') (p @ CHR '':'' # rest) = p"
    using n by (simp add: takeWhile_append2)
  moreover have "dropWhile (\<lambda>x. x \<noteq> CHR '':'') (p @ CHR '':'' # rest) = CHR '':'' # rest"
    using n by (simp add: dropWhile_append2)
  ultimately show ?thesis
    by (simp add: parse_count_def)
qed

subsection \<open>Reading back a decimal numeral\<close>

text \<open>\<^verbatim>\<open>int\<close> reads every integer back from its decimal numeral, and rejects every text
  with a character that is no digit, sign, underscore or whitespace.\<close>

lemma of_char_digit:
  assumes "d < 10"
  shows "(of_char (char_of (48 + d :: nat)) :: nat) = 48 + d"
    and "(of_char (char_of (48 + d :: nat)) :: int) = 48 + int d"
proof -
  from assms show n: "(of_char (char_of (48 + d :: nat)) :: nat) = 48 + d"
    by simp
  have "(of_char (char_of (48 + d)) :: int) = int (of_char (char_of (48 + d)))"
    by (simp only: of_nat_of_char)
  with n show "(of_char (char_of (48 + d :: nat)) :: int) = 48 + int d"
    by simp
qed

lemma is_digit_char_of: "d < 10 \<Longrightarrow> is_digit (char_of (48 + d :: nat))"
  by (simp add: is_digit_def of_char_digit)

lemma digits_of_nonempty: "digits_of n \<noteq> []"
  by (subst digits_of.simps) simp

lemma digits_of_digits: "c \<in> set (digits_of n) \<Longrightarrow> is_digit c"
proof (induction n arbitrary: c rule: digits_of.induct)
  case (1 n)
  show ?case
  proof (cases "n < 10")
    case True
    with "1.prems" show ?thesis
      by (subst (asm) digits_of.simps) (simp add: is_digit_char_of)
  next
    case False
    with "1.prems" have "c \<in> set (digits_of (n div 10)) \<or> c = char_of (48 + n mod 10)"
      by (subst (asm) digits_of.simps) auto
    then show ?thesis
      using "1.IH" [OF False] by (auto simp: is_digit_char_of)
  qed
qed

lemma digits_value_snoc:
  "digits_value (ds @ [c]) = 10 * digits_value ds + (of_char c - 48)"
  by (simp add: digits_value_def)

lemma digits_value_digits_of: "digits_value (digits_of n) = int n"
proof (induction n rule: digits_of.induct)
  case (1 n)
  show ?case
  proof (cases "n < 10")
    case True
    then show ?thesis
      by (subst digits_of.simps) (simp add: digits_value_def of_char_digit)
  next
    case False
    have "digits_value (digits_of n) =
            10 * digits_value (digits_of (n div 10)) + (of_char (char_of (48 + n mod 10)) - 48)"
      using False by (subst digits_of.simps) (simp add: digits_value_snoc)
    also have "(of_char (char_of (48 + n mod 10)) :: int) = 48 + int (n mod 10)"
      by (simp add: of_char_digit)
    finally show ?thesis
      using "1.IH" [OF False] by (simp add: zmod_int zdiv_int)
  qed
qed

lemma digit_groups_digits:
  "ds \<noteq> [] \<Longrightarrow> (\<And>c. c \<in> set ds \<Longrightarrow> is_digit c) \<Longrightarrow> digit_groups ds"
proof (induction ds rule: digit_groups.induct)
  case 1
  then show ?case by simp
next
  case (2 c)
  then show ?case by simp
next
  case (3 c d cs)
  have "is_digit d" using "3.prems"(2) by simp
  then have "d \<noteq> CHR ''_''" by (auto simp: is_digit_def Let_def)
  with 3 show ?case by simp
qed

lemma digit_groups_chars:
  "digit_groups ds \<Longrightarrow> c \<in> set ds \<Longrightarrow> is_digit c \<or> c = CHR ''_''"
  by (induction ds rule: digit_groups.induct) (auto split: if_splits)

lemma int_strip_id:
  assumes "s \<noteq> []" and "\<not> is_int_space (hd s)" and "\<not> is_int_space (last s)"
  shows "int_strip s = s"
proof -
  from assms(1,2) have "dropWhile is_int_space s = s"
    by (cases s) auto
  moreover from assms(1,3) have "dropWhile is_int_space (rev s) = rev s"
    by (cases "rev s") (auto simp: last_rev [symmetric] hd_rev)
  ultimately show ?thesis by (simp add: int_strip_def)
qed

lemma is_digit_plain:
  "is_digit c \<Longrightarrow> \<not> is_int_space c \<and> c \<noteq> CHR ''_'' \<and> c \<noteq> CHR ''-'' \<and> c \<noteq> CHR ''+''"
  by (auto simp: is_digit_def is_int_space_def Let_def)

lemma py_int_digits_of: "py_int (digits_of n) = Some (int n)"
proof -
  let ?ds = "digits_of n"
  have ne: "?ds \<noteq> []" by (rule digits_of_nonempty)
  have d: "\<And>c. c \<in> set ?ds \<Longrightarrow> is_digit c" by (rule digits_of_digits)
  from ne d have h: "is_digit (hd ?ds)" and l: "is_digit (last ?ds)"
    by simp_all
  have s: "int_strip ?ds = ?ds"
    using ne h l by (intro int_strip_id) (simp_all add: is_digit_plain)
  have st: "\<not> startswith ?ds CHR ''-''" "\<not> startswith ?ds CHR ''+''"
    using ne h by (cases ?ds; auto simp: startswith_def dest: is_digit_plain)+
  have f: "filter (\<lambda>c. c \<noteq> CHR ''_'') ?ds = ?ds"
    using d by (auto simp: filter_id_conv dest: is_digit_plain)
  show ?thesis
    using digit_groups_digits [OF ne d]
    by (simp add: py_int_def s st f digits_value_digits_of)
qed

lemma py_int_minus_digits_of: "py_int (CHR ''-'' # digits_of n) = Some (- int n)"
proof -
  let ?ds = "digits_of n"
  have ne: "?ds \<noteq> []" by (rule digits_of_nonempty)
  have d: "\<And>c. c \<in> set ?ds \<Longrightarrow> is_digit c" by (rule digits_of_digits)
  from ne d have l: "is_digit (last ?ds)" by simp
  have m: "\<not> is_int_space CHR ''-''"
    by (simp add: is_int_space_def)
  have s: "int_strip (CHR ''-'' # ?ds) = CHR ''-'' # ?ds"
    using ne l m by (intro int_strip_id) (simp_all add: is_digit_plain)
  have f: "filter (\<lambda>c. c \<noteq> CHR ''_'') ?ds = ?ds"
    using d by (auto simp: filter_id_conv dest: is_digit_plain)
  show ?thesis
    using digit_groups_digits [OF ne d]
    by (simp add: py_int_def s startswith_def f digits_value_digits_of)
qed

lemma py_int_str_int: "py_int (str_int n) = Some n"
  by (simp add: str_int_def py_int_digits_of py_int_minus_digits_of)

lemma dropWhile_keeps: "x \<in> set s \<Longrightarrow> \<not> P x \<Longrightarrow> x \<in> set (dropWhile P s)"
  by (induction s) auto

lemma py_int_rejects:
  assumes "x \<in> set p" and "\<not> is_digit x" and "x \<notin> set ''+-_''" and "\<not> is_int_space x"
  shows "py_int p = None"
proof -
  let ?t = "int_strip p"
  let ?ds = "if startswith ?t CHR ''-'' \<or> startswith ?t CHR ''+'' then tl ?t else ?t"
  from assms(1,4) have "x \<in> set (rev (dropWhile is_int_space p))"
    by (simp add: dropWhile_keeps)
  with assms(4) have t: "x \<in> set ?t"
    unfolding int_strip_def by (simp add: dropWhile_keeps)
  have "x \<in> set ?ds"
  proof (cases "startswith ?t CHR ''-'' \<or> startswith ?t CHR ''+''")
    case True
    then obtain y ys where y: "?t = y # ys" "y = CHR ''-'' \<or> y = CHR ''+''"
      by (cases ?t) (auto simp: startswith_def)
    with t assms(3) have "x \<in> set ys" by auto
    with True y show ?thesis by simp
  next
    case False
    with t show ?thesis by simp
  qed
  with assms(2,3) have "\<not> digit_groups ?ds"
    using digit_groups_chars [of ?ds x] by auto
  then show ?thesis
    by (simp add: py_int_def Let_def)
qed


subsection \<open>The count prefix of a command line\<close>

lemma parse_with_count_prefix:
  assumes part: "partition_str t CHR '' '' = (p @ '':'' @ cmd_name, sep, argstr)"
    and colon: "CHR '':'' \<notin> set p"
    and name: "cmd_name \<noteq> []"
    and reg: "map_of (cmd_dict env) cmd_name = Some c"
    and noalias: "aliases \<longrightarrow> get_alias env t = Inr None"
  shows "\<exists>r. parse env t aliases fallback keep = Inr r \<and> cmd r = Some c \<and>
             take 1 (cmdline r) = [cmd_name] \<and> count r = py_int p"
proof -
  have pc: "parse_count (p @ '':'' @ cmd_name) = (py_int p, cmd_name)"
    using parse_count_colon [OF colon, of cmd_name] by simp
  show ?thesis
    using name noalias
    by (simp add: parse_unfold [OF part pc] parse_command_registered [OF reg])
qed

text \<open>
  Claim C7. When the first token of a text, up to its first space, is a prefix without a
  colon, a colon and the name of a registered command, and no alias is found for the text,
  \<^verbatim>\<open>parse\<close> returns a result under every combination of the options; its command token
  is the name, without the prefix and the colon, and its count is what \<^verbatim>\<open>int\<close> reads from
  the prefix: the integer \<open>n\<close> when the prefix is the decimal numeral of \<open>n\<close>, and no count,
  with no error raised, when \<^verbatim>\<open>int\<close> rejects the prefix, as it does when the prefix has a
  character that is no digit, sign, underscore or whitespace. So \<^verbatim>\<open>parse("3:foo bar")\<close>
  yields the count 3 and the command token \<^verbatim>\<open>foo\<close>, and \<^verbatim>\<open>parse("x:foo bar")\<close> yields no
  count and the same command token.
\<close>

theorem parse_count_prefix:
  "(partition_str t CHR '' '' = (p @ '':'' @ cmd_name, sep, argstr) \<and> CHR '':'' \<notin> set p \<and>
    cmd_name \<noteq> [] \<and> map_of (cmd_dict env) cmd_name = Some c \<and>
    (aliases \<longrightarrow> get_alias env t = Inr None) \<longrightarrow>
      (\<exists>r. parse env t aliases fallback keep = Inr r \<and> cmd r = Some c \<and>
           take 1 (cmdline r) = [cmd_name] \<and> count r = py_int p \<and>
           (\<forall>n. p = str_int n \<longrightarrow> count r = Some n) \<and>
           ((\<exists>x \<in> set p. \<not> is_digit x \<and> x \<notin> set ''+-_'' \<and> \<not> is_int_space x)
              \<longrightarrow> count r = None))) \<and>
   (map_of (cmd_dict env) ''foo'' = Some c \<and>
    (aliases \<longrightarrow> config_aliases env ''3:foo'' = None) \<longrightarrow>
      (\<exists>r. parse env ''3:foo bar'' aliases fallback keep = Inr r \<and> count r = Some 3 \<and>
           cmd r = Some c \<and> take 1 (cmdline r) = [''foo''])) \<and>
   (map_of (cmd_dict env) ''foo'' = Some c \<and>
    (aliases \<longrightarrow> config_aliases env ''x:foo'' = None) \<longrightarrow>
      (\<exists>r. parse env ''x:foo bar'' aliases fallback keep = Inr r \<and> count r = None \<and>
           cmd r = Some c \<and> take 1 (cmdline r) = [''foo'']))"
proof (intro conjI impI)
  assume h: "partition_str t CHR '' '' = (p @ '':'' @ cmd_name, sep, argstr) \<and> CHR '':'' \<notin> set p \<and>
    cmd_name \<noteq> [] \<and> map_of (cmd_dict env) cmd_name = Some c \<and>
    (aliases \<longrightarrow> get_alias env t = Inr None)"
  then obtain r where r: "parse env t aliases fallback keep = Inr r" "cmd r = Some c"
      "take 1 (cmdline r) = [cmd_name]" "count r = py_int p"
    using parse_with_count_prefix [of t p cmd_name sep argstr env c aliases fallback keep]
    by blast
  have "\<forall>n. p = str_int n \<longrightarrow> count r = Some n"
    using r(4) by (simp add: py_int_str_int)
  moreover have "(\<exists>x \<in> set p. \<not> is_digit x \<and> x \<notin> set ''+-_'' \<and> \<not> is_int_space x)
      \<longrightarrow> count r = None"
    using r(4) py_int_rejects [of _ p] by auto
  ultimately show "\<exists>r. parse env t aliases fallback keep = Inr r \<and> cmd r = Some c \<and>
           take 1 (cmdline r) = [cmd_name] \<and> count r = py_int p \<and>
           (\<forall>n. p = str_int n \<longrightarrow> count r = Some n) \<and>
           ((\<exists>x \<in> set p. \<not> is_digit x \<and> x \<notin> set ''+-_'' \<and> \<not> is_int_space x)
              \<longrightarrow> count r = None)"
    using r by blast
next
  assume h: "map_of (cmd_dict env) ''foo'' = Some c \<and>
    (aliases \<longrightarrow> config_aliases env ''3:foo'' = None)"
  have part: "partition_str ''3:foo bar'' CHR '' '' = (''3'' @ '':'' @ ''foo'', '' '', ''bar'')"
    by (simp add: partition_str_def)
  have a: "aliases \<longrightarrow> get_alias env ''3:foo bar'' = Inr None"
    using h by (simp add: get_alias_def string_defs)
  have i: "py_int ''3'' = Some 3"
    by (simp add: string_defs)
  from parse_with_count_prefix [OF part _ _ _ a, of c fallback keep] h i
  show "\<exists>r. parse env ''3:foo bar'' aliases fallback keep = Inr r \<and> count r = Some 3 \<and>
           cmd r = Some c \<and> take 1 (cmdline r) = [''foo'']"
    by auto
next
  assume h: "map_of (cmd_dict env) ''foo'' = Some c \<and>
    (aliases \<longrightarrow> config_aliases env ''x:foo'' = None)"
  have part: "partition_str ''x:foo bar'' CHR '' '' = (''x'' @ '':'' @ ''foo'', '' '', ''bar'')"
    by (simp add: partition_str_def)
  have a: "aliases \<longrightarrow> get_alias env ''x:foo bar'' = Inr None"
    using h by (simp add: get_alias_def string_defs)
  have i: "py_int ''x'' = None"
    by (simp add: string_defs)
  from parse_with_count_prefix [OF part _ _ _ a, of c fallback keep] h i
  show "\<exists>r. parse env ''x:foo bar'' aliases fallback keep = Inr r \<and> count r = None \<and>
           cmd r = Some c \<and> take 1 (cmdline r) = [''foo'']"
    by auto
qed

lemma str_int_examples: "str_int 3 = ''3''" "str_int 12 = ''12''" "str_int (- 7) = ''-7''"
  by code_simp+

theorem parse_count_prefix_witness:
  "partition_str ''12:foo bar'' CHR '' '' = (''12'' @ '':'' @ ''foo'', '' '', ''bar'') \<and>
   CHR '':'' \<notin> set ''12'' \<and> map_of (cmd_dict example_env) ''foo'' = Some foo_cmd \<and>
   get_alias example_env ''12:foo bar'' = Inr None \<and> ''12'' = str_int 12 \<and>
   parse example_env ''12:foo bar'' True False False =
     Inr \<lparr>cmd = Some foo_cmd, args = Some [''bar''], cmdline = [''foo'', ''bar''],
          count = Some 12\<rparr> \<and>
   partition_str ''1x:foo bar'' CHR '' '' = (''1x'' @ '':'' @ ''foo'', '' '', ''bar'') \<and>
   CHR '':'' \<notin> set ''1x'' \<and> get_alias example_env ''1x:foo bar'' = Inr None \<and>
   CHR ''x'' \<in> set ''1x'' \<and> \<not> is_digit CHR ''x'' \<and> CHR ''x'' \<notin> set ''+-_'' \<and>
   \<not> is_int_space CHR ''x'' \<and>
   parse example_env ''1x:foo bar'' True False False =
     Inr \<lparr>cmd = Some foo_cmd, args = Some [''bar''], cmdline = [''foo'', ''bar''],
          count = None\<rparr> \<and>
   config_aliases example_env ''3:foo'' = None \<and> config_aliases example_env ''x:foo'' = None \<and>
   parse example_env ''3:foo bar'' True False False =
     Inr \<lparr>cmd = Some foo_cmd, args = Some [''bar''], cmdline = [''foo'', ''bar''],
          count = Some 3\<rparr> \<and>
   parse example_env ''x:foo bar'' True False False =
     Inr \<lparr>cmd = Some foo_cmd, args = Some [''bar''], cmdline = [''foo'', ''bar''],
          count = None\<rparr>"
proof -
  let ?res = "\<lambda>k. \<lparr>cmd = Some foo_cmd, args = Some [''bar''], cmdline = [''foo'', ''bar''],
                    count = k\<rparr>"
  note w = parse_count_prefix [where env = example_env and c = foo_cmd and aliases = True
      and fallback = False and keep = False]
  have reg: "map_of (cmd_dict example_env) ''foo'' = Some foo_cmd"
    by (simp add: example_env_def)
  have sa: "split_args example_env foo_cmd ''bar'' False = [''bar'']"
    by (simp add: string_defs parser_defs example_defs)
  have shape: "parse example_env t True False False = Inr r \<Longrightarrow> cmd r = Some foo_cmd \<Longrightarrow>
      get_alias example_env t = Inr None \<Longrightarrow>
      partition_str t CHR '' '' = (tok, '' '', ''bar'') \<Longrightarrow> parse_count tok = (k, ''foo'') \<Longrightarrow>
      r = ?res k" for t r tok k
    by (simp add: parse_unfold parse_command_registered [OF reg] sa)
  have p12: "partition_str ''12:foo bar'' CHR '' '' = (''12'' @ '':'' @ ''foo'', '' '', ''bar'')"
    and p1x: "partition_str ''1x:foo bar'' CHR '' '' = (''1x'' @ '':'' @ ''foo'', '' '', ''bar'')"
    and p3: "partition_str ''3:foo bar'' CHR '' '' = (''3:foo'', '' '', ''bar'')"
    and px: "partition_str ''x:foo bar'' CHR '' '' = (''x:foo'', '' '', ''bar'')"
    by (simp_all add: partition_str_def)
  have a12: "get_alias example_env ''12:foo bar'' = Inr None"
    and a1x: "get_alias example_env ''1x:foo bar'' = Inr None"
    and a3: "get_alias example_env ''3:foo bar'' = Inr None"
    and ax: "get_alias example_env ''x:foo bar'' = Inr None"
    by (simp_all add: get_alias_def string_defs example_env_def)
  have c3: "config_aliases example_env ''3:foo'' = None"
    and cx: "config_aliases example_env ''x:foo'' = None"
    by (simp_all add: example_env_def)
  have x: "CHR ''x'' \<in> set ''1x''" "\<not> is_digit CHR ''x''" "CHR ''x'' \<notin> set ''+-_''"
      "\<not> is_int_space CHR ''x''"
    by (simp_all add: is_digit_def is_int_space_def)
  have pc: "parse_count ''12:foo'' = (py_int ''12'', ''foo'')"
      "parse_count ''1x:foo'' = (py_int ''1x'', ''foo'')"
      "parse_count ''3:foo'' = (py_int ''3'', ''foo'')"
      "parse_count ''x:foo'' = (py_int ''x'', ''foo'')"
    by (simp_all add: parse_count_def)
  from w [where t = "''12:foo bar''" and p = "''12''" and cmd_name = "''foo''" and sep = "'' ''"
      and argstr = "''bar''", THEN conjunct1] p12 reg a12
  obtain r12 where r12: "parse example_env ''12:foo bar'' True False False = Inr r12"
      "cmd r12 = Some foo_cmd" "\<forall>n. ''12'' = str_int n \<longrightarrow> count r12 = Some n"
    by auto
  from r12(3) have k12: "count r12 = Some 12"
    by (simp add: str_int_examples)
  from w [where t = "''1x:foo bar''" and p = "''1x''" and cmd_name = "''foo''" and sep = "'' ''"
      and argstr = "''bar''", THEN conjunct1] p1x reg a1x
  obtain r1x where r1x: "parse example_env ''1x:foo bar'' True False False = Inr r1x"
      "cmd r1x = Some foo_cmd"
      "(\<exists>x \<in> set ''1x''. \<not> is_digit x \<and> x \<notin> set ''+-_'' \<and> \<not> is_int_space x)
         \<longrightarrow> count r1x = None"
    by auto
  from r1x(3) x have k1x: "count r1x = None"
    by blast
  from w [where t = "''3:foo bar''" and p = "''3''" and cmd_name = "''foo''" and sep = "'' ''"
      and argstr = "''bar''", THEN conjunct2, THEN conjunct1] reg c3
  obtain r3 where r3: "parse example_env ''3:foo bar'' True False False = Inr r3"
      "cmd r3 = Some foo_cmd" "count r3 = Some 3"
    by auto
  from w [where t = "''x:foo bar''" and p = "''x''" and cmd_name = "''foo''" and sep = "'' ''"
      and argstr = "''bar''", THEN conjunct2, THEN conjunct2] reg cx
  obtain rx where rx: "parse example_env ''x:foo bar'' True False False = Inr rx"
      "cmd rx = Some foo_cmd" "count rx = None"
    by auto
  have e12: "r12 = ?res (Some 12)"
    using shape [OF r12(1,2) a12 _ pc(1)] p12 k12 by (cases r12) simp
  have e1x: "r1x = ?res None"
    using shape [OF r1x(1,2) a1x _ pc(2)] p1x k1x by (cases r1x) simp
  have e3: "r3 = ?res (Some 3)"
    using shape [OF r3(1,2) a3 p3 pc(3)] r3(3) by (cases r3) simp
  have ex: "rx = ?res None"
    using shape [OF rx(1,2) ax px pc(4)] rx(3) by (cases rx) simp
  from p12 p1x reg a12 a1x c3 cx x r12(1) r1x(1) r3(1) rx(1) e12 e1x e3 ex
  show ?thesis
    by (simp add: str_int_examples)
qed

subsection \<open>Exceptions that escape the parser\<close>

text \<open>
  Claim C1 says that \<^verbatim>\<open>parse\<close> and \<^verbatim>\<open>parse_all\<close> raise nothing but
  \<^verbatim>\<open>NoSuchCommandError\<close>. The code raises \<^verbatim>\<open>IndexError\<close> from \<^verbatim>\<open>parts[0]\<close> in
  \<^verbatim>\<open>_get_alias\<close> on a text that consists of a tab, with the default options, and on the
  empty text and on a single space with \<^verbatim>\<open>fallback=True\<close>, whatever the registry and
  the alias table are; and \<^verbatim>\<open>parse_all\<close> raises \<^verbatim>\<open>AttributeError\<close> from
  \<^verbatim>\<open>result.cmd.no_cmd_split\<close> on a chained text whose first command is unknown, with
  \<^verbatim>\<open>fallback=True\<close>.
\<close>

theorem parse_uncaught_exceptions:
  "parse env [CHR 0x09] True False False = Inl IndexError \<and>
   parse env [] True True keep = Inl IndexError \<and>
   parse env '' '' True True keep = Inl IndexError \<and>
   parse_all example_env ''nosuch;;foo'' True True False = ([], Some AttributeError)"
proof (intro conjI)
  show "parse env [CHR 0x09] True False False = Inl IndexError"
    by (simp add: string_defs parser_defs)
  show "parse env [] True True keep = Inl IndexError"
    by (simp add: string_defs parser_defs)
  show "parse env '' '' True True keep = Inl IndexError"
    by (simp add: string_defs parser_defs)
  show "parse_all example_env ''nosuch;;foo'' True True False = ([], Some AttributeError)"
    by (simp add: string_defs parser_defs example_defs)
qed

subsection \<open>The bounded split\<close>

text \<open>The loop of \<^verbatim>\<open>_split_args\<close> stops at the first argument that is not a flag, having
  counted the flags with an argument before it.\<close>

lemma first_non_flag_boundary:
  assumes "i < length xs"
    and "\<not> startswith (strip (xs ! i)) CHR ''-''"
    and "\<forall>j<i. startswith (strip (xs ! j)) CHR ''-''"
  shows "first_non_flag c n xs k f =
           Some (k + i + n + (f + length (filter (\<lambda>a. strip a \<in> set (flags_with_args c)) (take i xs))))"
  using assms
proof (induction xs arbitrary: i k f)
  case Nil
  then show ?case by simp
next
  case (Cons a xs)
  show ?case
  proof (cases i)
    case 0
    with Cons.prems show ?thesis by (simp add: Let_def)
  next
    case (Suc i')
    from Cons.prems(3) Suc have a: "startswith (strip a) CHR ''-''"
      by auto
    from Cons.prems Suc have "i' < length xs" "\<not> startswith (strip (xs ! i')) CHR ''-''"
      "\<forall>j<i'. startswith (strip (xs ! j)) CHR ''-''"
      by auto
    from Cons.IH [OF this] a Suc show ?thesis
      by (simp add: Let_def)
  qed
qed

lemma split_args_example:
  "split_args example_env foo_cmd ''--flag -v bar baz qux'' False =
     [''--flag'', ''-v'', ''bar'', ''baz'', ''qux'']"
  by (simp add: string_defs parser_defs example_defs)

text \<open>
  Claim C2, amended. For a command with a \<^verbatim>\<open>maxsplit\<close> of \<open>n\<close>, when the token at index
  \<open>i\<close> of the first, unbounded simple split is the first that is not a flag, the
  arguments are the simple split of the argument string with a \<^verbatim>\<open>maxsplit\<close> of \<open>i\<close>
  plus \<open>n\<close> plus the number of flags with an argument before that token. For the command
  \<^verbatim>\<open>foo\<close> with \<^verbatim>\<open>maxsplit\<close> 1 and the flag \<^verbatim>\<open>-v\<close> taking an argument, the string
  \<^verbatim>\<open>"--flag -v bar baz qux"\<close> is split with \<^verbatim>\<open>maxsplit\<close> 2 + 1 + 1 = 4, which gives the
  five arguments \<^verbatim>\<open>["--flag", "-v", "bar", "baz", "qux"]\<close>.
\<close>

theorem split_args_bounded:
  assumes "argstr \<noteq> []" and "maxsplit c = Some n"
    and "i < length (split_simple_split env argstr keep None)"
    and "\<not> startswith (strip (split_simple_split env argstr keep None ! i)) CHR ''-''"
    and "\<forall>j<i. startswith (strip (split_simple_split env argstr keep None ! j)) CHR ''-''"
  shows "split_args env c argstr keep =
           split_simple_split env argstr keep
             (Some (i + n + length (filter (\<lambda>a. strip a \<in> set (flags_with_args c))
                                       (take i (split_simple_split env argstr keep None))))) \<and>
         split_args example_env foo_cmd ''--flag -v bar baz qux'' False =
           [''--flag'', ''-v'', ''bar'', ''baz'', ''qux'']"
  using assms(1,2) first_non_flag_boundary [OF assms(3,4,5), of c n 0 0] split_args_example
  by (simp add: split_args_def)

theorem split_args_bounded_witness:
  "''--flag -v bar baz qux'' \<noteq> [] \<and> maxsplit foo_cmd = Some 1 \<and>
   split_simple_split example_env ''--flag -v bar baz qux'' False None =
     [''--flag'', ''-v'', ''bar'', ''baz'', ''qux''] \<and>
   flags_with_args foo_cmd = [''-v''] \<and>
   split_args example_env foo_cmd ''--flag -v bar baz qux'' False =
     split_simple_split example_env ''--flag -v bar baz qux'' False (Some (2 + 1 + 1))"
proof -
  let ?s = "''--flag -v bar baz qux''"
  have f: "split_simple_split example_env ?s False None = [''--flag'', ''-v'', ''bar'', ''baz'', ''qux'']"
    by (simp add: string_defs example_defs)
  have h1: "?s \<noteq> []" by simp
  have h2: "maxsplit foo_cmd = Some 1" by (simp add: foo_cmd_def)
  have h3: "2 < length (split_simple_split example_env ?s False None)"
    by (simp add: f)
  have h4: "\<not> startswith (strip (split_simple_split example_env ?s False None ! 2)) CHR ''-''"
    by (simp add: f string_defs)
  have h5: "\<forall>j<2. startswith (strip (split_simple_split example_env ?s False None ! j)) CHR ''-''"
    by (simp add: f string_defs less_Suc_eq numeral_2_eq_2)
  have fl: "flags_with_args foo_cmd = [''-v'']" by (simp add: foo_cmd_def)
  have cnt: "length (filter (\<lambda>a. strip a \<in> set (flags_with_args foo_cmd))
               (take 2 (split_simple_split example_env ?s False None))) = 1"
    by (simp add: f fl string_defs)
  from split_args_bounded [OF h1 h2 h3 h4 h5] cnt
  have "split_args example_env foo_cmd ?s False =
          split_simple_split example_env ?s False (Some (2 + 1 + 1))"
    by simp
  with h1 h2 f fl show ?thesis by simp
qed

text \<open>The argument list that claim C2 gives for the example, with \<^verbatim>\<open>"baz qux"\<close> as one
  token, is not what \<^verbatim>\<open>_split_args\<close> returns.\<close>

theorem split_args_example_counterexample:
  "maxsplit foo_cmd = Some 1 \<and> ''-v'' \<in> set (flags_with_args foo_cmd) \<and>
   split_args example_env foo_cmd ''--flag -v bar baz qux'' False
     \<noteq> [''--flag'', ''-v'', ''bar'', ''baz qux'']"
proof -
  have "maxsplit foo_cmd = Some 1" and "''-v'' \<in> set (flags_with_args foo_cmd)"
    by (simp_all add: foo_cmd_def)
  then show ?thesis
    by (simp add: split_args_example)
qed

subsection \<open>Variable substitution\<close>

lemma current_url_valid: "tabbed_browser_url w = Inr u \<Longrightarrow> current_url w = Inr u"
  by (simp add: current_url_def)

lemma current_url_invalid:
  "tabbed_browser_url w = Inl reason \<Longrightarrow> \<exists>msg. current_url w = Inl (CommandError msg)"
  by (simp add: current_url_def)

text \<open>With \<^verbatim>\<open>RemovePassword\<close> the rendering is that of the URL without its password, under
  the other options.\<close>

lemma toString_without_password:
  "RemovePassword \<in> options \<Longrightarrow>
     toString env u options = toString env (u\<lparr>password := []\<rparr>) (options - {RemovePassword})"
  by (simp add: toString_def Let_def)

text \<open>
  Claim C8, amended. For every argument list, when the current URL is valid,
  \<^verbatim>\<open>replace_variables\<close> returns the list with each token equal to \<^verbatim>\<open>{url}\<close> replaced by
  the fully encoded rendering of the current URL without its password, each token equal
  to \<^verbatim>\<open>{url:pretty}\<close> replaced by the human-readable rendering of the current URL without
  its password, and every other token unchanged, in the same positions; the user name of
  the URL stays in both renderings. When the current URL is invalid and the list contains
  one of the two placeholders, it fails with a \<^verbatim>\<open>CommandError\<close>; when the list contains
  neither, it returns the list unchanged and the URL is not looked at.
\<close>

theorem replace_variables_tokens:
  "(tabbed_browser_url w = Inr u \<longrightarrow>
      replace_variables env w arglist =
        Inr (map (\<lambda>arg. if arg = ''{url}'' then toString env u {FullyEncoded, RemovePassword}
                         else if arg = ''{url:pretty}'' then toString env u {RemovePassword}
                         else arg) arglist) \<and>
      toString env u {FullyEncoded, RemovePassword} =
        toString env (u\<lparr>password := []\<rparr>) {FullyEncoded} \<and>
      toString env u {RemovePassword} = toString env (u\<lparr>password := []\<rparr>) {}) \<and>
   (tabbed_browser_url w = Inl reason \<and> (''{url}'' \<in> set arglist \<or> ''{url:pretty}'' \<in> set arglist) \<longrightarrow>
      (\<exists>msg. replace_variables env w arglist = Inl (CommandError msg))) \<and>
   (tabbed_browser_url w = Inl reason \<and> ''{url}'' \<notin> set arglist \<and> ''{url:pretty}'' \<notin> set arglist \<longrightarrow>
      replace_variables env w arglist = Inr arglist)"
proof (intro conjI impI)
  assume "tabbed_browser_url w = Inr u"
  then have "current_url w = Inr u" by (rule current_url_valid)
  then show "replace_variables env w arglist =
        Inr (map (\<lambda>arg. if arg = ''{url}'' then toString env u {FullyEncoded, RemovePassword}
                         else if arg = ''{url:pretty}'' then toString env u {RemovePassword}
                         else arg) arglist)"
    by (auto simp: replace_variables_def)
next
  have "{FullyEncoded, RemovePassword} - {RemovePassword} = {FullyEncoded}"
    by auto
  then show "toString env u {FullyEncoded, RemovePassword} =
        toString env (u\<lparr>password := []\<rparr>) {FullyEncoded}"
    using toString_without_password [of "{FullyEncoded, RemovePassword}" env u] by simp
next
  show "toString env u {RemovePassword} = toString env (u\<lparr>password := []\<rparr>) {}"
    using toString_without_password [of "{RemovePassword}" env u] by simp
next
  assume a: "tabbed_browser_url w = Inl reason \<and> (''{url}'' \<in> set arglist \<or> ''{url:pretty}'' \<in> set arglist)"
  then obtain msg where "current_url w = Inl (CommandError msg)"
    using current_url_invalid by blast
  with a show "\<exists>msg. replace_variables env w arglist = Inl (CommandError msg)"
    by (auto simp: replace_variables_def)
next
  assume n: "tabbed_browser_url w = Inl reason \<and> ''{url}'' \<notin> set arglist \<and> ''{url:pretty}'' \<notin> set arglist"
  then have "map (\<lambda>arg. if arg = ''{url}'' then [] else if arg = ''{url:pretty}'' then [] else arg) arglist = arglist"
    by (intro map_idI) auto
  with n show "replace_variables env w arglist = Inr arglist"
    by (simp add: replace_variables_def)
qed

lemma toString_examples:
  "toString example_env \<lparr>scheme = ''https'', user_name = [], password = [],
      host_path = ''example.com/a b''\<rparr> {FullyEncoded, RemovePassword} = ''https://example.com/a%20b''"
  "toString example_env \<lparr>scheme = ''https'', user_name = [], password = [],
      host_path = ''example.com/a b''\<rparr> {RemovePassword} = ''https://example.com/a b''"
  "toString example_env \<lparr>scheme = ''https'', user_name = ''a'', password = ''b'',
      host_path = ''example.com/p''\<rparr> {FullyEncoded, RemovePassword} = ''https://a@example.com/p''"
  "toString example_env \<lparr>scheme = ''https'', user_name = ''a'', password = ''b'',
      host_path = ''example.com/p''\<rparr> {RemovePassword} = ''https://a@example.com/p''"
  "toString example_env \<lparr>scheme = ''https'', user_name = ''a'', password = ''b'',
      host_path = ''example.com/p''\<rparr> {} = ''https://a:b@example.com/p''"
  by (simp_all add: toString_def example_env_def)

theorem replace_variables_tokens_witness:
  "tabbed_browser_url normal_world =
     Inr \<lparr>scheme = ''https'', user_name = [], password = [], host_path = ''example.com/a b''\<rparr> \<and>
   replace_variables example_env normal_world [''-t'', ''{url}'', ''{url:pretty}''] =
     Inr [''-t'', ''https://example.com/a%20b'', ''https://example.com/a b''] \<and>
   tabbed_browser_url no_url_world = Inl None \<and> ''{url}'' \<in> set [''-t'', ''{url}''] \<and>
   (\<exists>msg. replace_variables example_env no_url_world [''-t'', ''{url}''] = Inl (CommandError msg)) \<and>
   ''{url}'' \<notin> set [''-t''] \<and> ''{url:pretty}'' \<notin> set [''-t''] \<and>
   replace_variables example_env no_url_world [''-t''] = Inr [''-t'']"
proof -
  let ?u = "\<lparr>scheme = ''https'', user_name = [], password = [], host_path = ''example.com/a b''\<rparr>"
  have v: "tabbed_browser_url normal_world = Inr ?u"
    by (simp add: normal_world_def)
  have i: "tabbed_browser_url no_url_world = Inl None"
    by (simp add: no_url_world_def)
  from replace_variables_tokens [where w = normal_world and u = ?u and env = example_env
      and arglist = "[''-t'', ''{url}'', ''{url:pretty}'']"] v
  have a: "replace_variables example_env normal_world [''-t'', ''{url}'', ''{url:pretty}''] =
             Inr [''-t'', ''https://example.com/a%20b'', ''https://example.com/a b'']"
    by (simp add: toString_examples)
  from replace_variables_tokens [where w = no_url_world and env = example_env
      and arglist = "[''-t'', ''{url}'']" and reason = None] i
  have b: "\<exists>msg. replace_variables example_env no_url_world [''-t'', ''{url}''] = Inl (CommandError msg)"
    by simp
  from replace_variables_tokens [where w = no_url_world and env = example_env
      and arglist = "[''-t'']" and reason = None] i
  have c: "replace_variables example_env no_url_world [''-t''] = Inr [''-t'']"
    by simp
  from v i a b c show ?thesis by simp
qed

text \<open>Claim C8 as stated says that the substitution fails when the current URL is invalid,
  and that the credentials are stripped from the renderings. It does not fail on a list
  without placeholders, and on the page \<^verbatim>\<open>https://a:b@example.com/p\<close> both placeholders
  become \<^verbatim>\<open>https://a@example.com/p\<close>, with the user name.\<close>

theorem replace_variables_counterexample:
  "tabbed_browser_url no_url_world = Inl None \<and>
   replace_variables example_env no_url_world [''-t'', ''about:blank''] = Inr [''-t'', ''about:blank''] \<and>
   tabbed_browser_url login_world =
     Inr \<lparr>scheme = ''https'', user_name = ''a'', password = ''b'', host_path = ''example.com/p''\<rparr> \<and>
   replace_variables example_env login_world [''{url}'', ''{url:pretty}''] =
     Inr [''https://a@example.com/p'', ''https://a@example.com/p'']"
proof -
  have "replace_variables example_env no_url_world [''-t'', ''about:blank''] =
      Inr [''-t'', ''about:blank'']"
    by (simp add: replace_variables_def)
  moreover have l: "tabbed_browser_url login_world =
     Inr \<lparr>scheme = ''https'', user_name = ''a'', password = ''b'', host_path = ''example.com/p''\<rparr>"
    by (simp add: login_world_def)
  moreover have "replace_variables example_env login_world [''{url}'', ''{url:pretty}''] =
     Inr [''https://a@example.com/p'', ''https://a@example.com/p'']"
    by (simp add: replace_variables_def current_url_valid [OF l] toString_examples)
  ultimately show ?thesis
    by (simp add: no_url_world_def)
qed

subsection \<open>Dispatch and the count\<close>

text \<open>Without fallback a parse result has a command, arguments and a first token, so
  \<^verbatim>\<open>run\<close>, which parses with the default options, meets no \<^verbatim>\<open>None\<close>.\<close>

lemma parse_command_resolved:
  "parse_command env t cmdstr sep argstr cnt False keep = Inr r
     \<Longrightarrow> \<exists>c as. cmd r = Some c \<and> args r = Some as \<and> cmdline r \<noteq> []"
  by (auto simp: parse_command_def Let_def split: option.splits if_splits)

lemma parse_resolved:
  "parse env t aliases False keep = Inr r
     \<Longrightarrow> \<exists>c as. cmd r = Some c \<and> args r = Some as \<and> cmdline r \<noteq> []"
proof (induction env t aliases "False" keep rule: parse.induct)
  case (1 env t aliases keep)
  obtain cmdstr0 sep argstr where p: "partition_str t CHR '' '' = (cmdstr0, sep, argstr)"
    by (cases "partition_str t CHR '' ''") auto
  obtain cnt cmdstr where c: "parse_count cmdstr0 = (cnt, cmdstr)"
    by (cases "parse_count cmdstr0") auto
  note eq = parse_unfold [OF p c, of env aliases False keep]
  from "1.prems"(1) have ne: "cmdstr \<noteq> []"
    unfolding eq by (auto split: if_splits)
  show ?case
  proof (cases "aliases \<and> (\<exists>new_cmd. get_alias env t = Inr (Some new_cmd))")
    case True
    then obtain new_cmd where a: aliases and g: "get_alias env t = Inr (Some new_cmd)"
      by blast
    from "1.prems"(1) have "parse env new_cmd False False keep = Inr r"
      unfolding eq using ne a g by simp
    then show ?thesis
      using "1.hyps" p c ne a g by auto
  next
    case False
    with "1.prems"(1) ne
    have "parse_command env t cmdstr sep argstr cnt False keep = Inr r"
      unfolding eq by (auto split: if_splits sum.splits option.splits)
    then show ?thesis by (rule parse_command_resolved)
  qed
qed

lemma dispatch_resolved:
  assumes "args result = Some arglist" and "replace_variables env w arglist = Inr as"
    and "cmd result = Some c"
  shows "dispatch env t cnt result w =
           (if cnt \<noteq> None \<and> count result \<noteq> None
            then (Some (CommandMetaError ''Got count via command and prefix!''), w)
            else record_last_command t cnt result (cmd_run env c as (resolved_count cnt result) w))"
  using assms by (simp add: dispatch_def)

text \<open>
  Claim C5, amended. For every segment that the loop of \<^verbatim>\<open>run\<close> reaches, that parses,
  and whose variable substitution succeeds: when both the caller's count and the parsed
  count are present, \<^verbatim>\<open>run\<close> fails with \<^verbatim>\<open>CommandMetaError\<close> and the state is as it
  was, the command not being invoked; when exactly one of the two is present the command
  is invoked with that count; when neither is present it is invoked without a count.
  (Variable substitution comes first: an invalid current URL raises its
  \<^verbatim>\<open>CommandError\<close> before the counts are compared.)
\<close>

theorem run_count_resolution:
  assumes "parse env sub True False False = Inr result"
    and "args result = Some arglist" and "replace_variables env w arglist = Inr as"
    and "cmd result = Some c"
  shows "run_each env t cnt (sub # subs) w =
           (case dispatch env t cnt result w of
              (Some e, w') \<Rightarrow> (Some e, w')
            | (None, w') \<Rightarrow> run_each env t cnt subs w') \<and>
         (cnt = Some k \<and> count result = Some d \<longrightarrow>
            dispatch env t cnt result w =
              (Some (CommandMetaError ''Got count via command and prefix!''), w) \<and>
            run_each env t cnt (sub # subs) w =
              (Some (CommandMetaError ''Got count via command and prefix!''), w)) \<and>
         (cnt = Some k \<and> count result = None \<longrightarrow>
            dispatch env t cnt result w =
              record_last_command t cnt result (cmd_run env c as (Some k) w)) \<and>
         (cnt = None \<and> count result = Some d \<longrightarrow>
            dispatch env t cnt result w =
              record_last_command t cnt result (cmd_run env c as (Some d) w)) \<and>
         (cnt = None \<and> count result = None \<longrightarrow>
            dispatch env t cnt result w =
              record_last_command t cnt result (cmd_run env c as None w))"
  using assms(1) dispatch_resolved [OF assms(2,3,4), of t cnt]
  by (auto simp: resolved_count_def)

lemma parse_open_example:
  "parse example_env ''open x'' True False False =
     Inr \<lparr>cmd = Some open_cmd, args = Some [''x''], cmdline = [''open'', ''x''], count = None\<rparr>"
  "parse example_env ''2:open x'' True False False =
     Inr \<lparr>cmd = Some open_cmd, args = Some [''x''], cmdline = [''open'', ''x''], count = Some 2\<rparr>"
  "parse example_env ''2:open {url}'' True False False =
     Inr \<lparr>cmd = Some open_cmd, args = Some [''{url}''], cmdline = [''open'', ''{url}''],
          count = Some 2\<rparr>"
  "parse example_env ''open a:b'' True False False =
     Inr \<lparr>cmd = Some open_cmd, args = Some [''a:b''], cmdline = [''open'', ''a:b''],
          count = None\<rparr>"
  by (simp_all add: string_defs parser_defs example_defs)

lemma replace_variables_plain:
  "replace_variables env w [''x''] = Inr [''x'']"
  by (simp add: replace_variables_def)

theorem run_count_resolution_witness:
  "run_each example_env ''2:open x'' (Some 5) [''2:open x''] normal_world =
     (Some (CommandMetaError ''Got count via command and prefix!''), normal_world) \<and>
   dispatch example_env ''open x'' (Some 5)
       \<lparr>cmd = Some open_cmd, args = Some [''x''], cmdline = [''open'', ''x''], count = None\<rparr>
       normal_world =
     (None, normal_world\<lparr>last_command := [''normal'' \<mapsto> (''open x'', Some 5)]\<rparr>) \<and>
   dispatch example_env ''2:open x'' None
       \<lparr>cmd = Some open_cmd, args = Some [''x''], cmdline = [''open'', ''x''], count = Some 2\<rparr>
       normal_world =
     (None, normal_world\<lparr>last_command := [''normal'' \<mapsto> (''open x'', Some 2)]\<rparr>) \<and>
   dispatch example_env ''open x'' None
       \<lparr>cmd = Some open_cmd, args = Some [''x''], cmdline = [''open'', ''x''], count = None\<rparr>
       normal_world =
     (None, normal_world\<lparr>last_command := [''normal'' \<mapsto> (''open x'', None)]\<rparr>)"
proof -
  let ?r0 = "\<lparr>cmd = Some open_cmd, args = Some [''x''], cmdline = [''open'', ''x''], count = None\<rparr>"
  let ?r2 = "\<lparr>cmd = Some open_cmd, args = Some [''x''], cmdline = [''open'', ''x''], count = Some 2\<rparr>"
  have rv: "replace_variables example_env normal_world [''x''] = Inr [''x'']"
    by (rule replace_variables_plain)
  have run: "cmd_run example_env c as k w = (None, w)" for c as k w
    by (simp add: example_env_def)
  have pc: "snd (parse_count ''open x'') = ''open x''" "snd (parse_count ''2:open x'') = ''open x''"
    by (simp_all add: parse_count_def string_defs)
  have m: "mode normal_world = ''normal''" "last_command normal_world = Map.empty"
    by (simp_all add: normal_world_def)
  note w0 = run_count_resolution [OF parse_open_example(1) _ rv, of open_cmd]
  note w2 = run_count_resolution [OF parse_open_example(2) _ rv, of open_cmd]
  from w2 [of "''2:open x''" "Some 5" "[]" 5 2]
  have a: "run_each example_env ''2:open x'' (Some 5) [''2:open x''] normal_world =
     (Some (CommandMetaError ''Got count via command and prefix!''), normal_world)"
    by simp
  from w0 [of "''open x''" "Some 5" "[]" 5]
  have b: "dispatch example_env ''open x'' (Some 5) ?r0 normal_world =
     (None, normal_world\<lparr>last_command := [''normal'' \<mapsto> (''open x'', Some 5)]\<rparr>)"
    by (simp add: run record_last_command_def resolved_count_def pc m)
  from w2 [of "''2:open x''" None "[]" _ 2]
  have c: "dispatch example_env ''2:open x'' None ?r2 normal_world =
     (None, normal_world\<lparr>last_command := [''normal'' \<mapsto> (''open x'', Some 2)]\<rparr>)"
    by (simp add: run record_last_command_def resolved_count_def pc m)
  from w0 [of "''open x''" None "[]"]
  have d: "dispatch example_env ''open x'' None ?r0 normal_world =
     (None, normal_world\<lparr>last_command := [''normal'' \<mapsto> (''open x'', None)]\<rparr>)"
    by (simp add: run record_last_command_def resolved_count_def pc m)
  from a b c d show ?thesis by simp
qed

text \<open>Claim C5 as stated: both counts are present, and \<^verbatim>\<open>run\<close> fails with
  \<^verbatim>\<open>CommandError\<close>, not with \<^verbatim>\<open>CommandMetaError\<close>, since the placeholder is resolved
  first.\<close>

theorem run_count_conflict_counterexample:
  "parse example_env ''2:open {url}'' True False False =
     Inr \<lparr>cmd = Some open_cmd, args = Some [''{url}''], cmdline = [''open'', ''{url}''],
          count = Some 2\<rparr> \<and>
   run example_env ''2:open {url}'' (Some 5) no_url_world =
     (Some (CommandError ''Current URL is invalid!''), no_url_world)"
proof -
  have "replace_variables example_env no_url_world [''{url}''] =
          Inl (CommandError ''Current URL is invalid!'')"
    by (simp add: replace_variables_def current_url_def no_url_world_def)
  then show ?thesis
    by (simp add: run_def sub_texts_def parse_open_example dispatch_def)
qed

text \<open>In general: with an invalid current URL and a placeholder among the arguments, the
  body of the loop ends with the \<^verbatim>\<open>CommandError\<close>, whatever the counts are, and the state
  is as it was.\<close>

lemma dispatch_invalid_url:
  assumes "tabbed_browser_url w = Inl reason" and "args result = Some arglist"
    and "''{url}'' \<in> set arglist \<or> ''{url:pretty}'' \<in> set arglist"
  shows "\<exists>msg. dispatch env t cnt result w = (Some (CommandError msg), w)"
proof -
  from assms(1) obtain msg where "current_url w = Inl (CommandError msg)"
    using current_url_invalid by blast
  with assms(3) have "replace_variables env w arglist = Inl (CommandError msg)"
    by (auto simp: replace_variables_def)
  with assms(2) show ?thesis
    by (simp add: dispatch_def)
qed

subsection \<open>The last command\<close>

text \<open>
  Claim C3 says that the registry entry of the mode is set to the input text with only its
  leading count prefix stripped. \<^verbatim>\<open>run\<close> applies \<^verbatim>\<open>_parse_count\<close> to the whole text,
  where \<^verbatim>\<open>parse\<close> applies it to the first token: the text \<^verbatim>\<open>open a:b\<close>, which has no
  count prefix, is recorded as \<^verbatim>\<open>b\<close>.
\<close>

theorem run_last_command_colon:
  "run example_env ''open a:b'' None normal_world =
     (None, normal_world\<lparr>last_command := [''normal'' \<mapsto> (''b'', None)]\<rparr>)"
proof -
  have "replace_variables example_env normal_world [''a:b''] = Inr [''a:b'']"
    by (simp add: replace_variables_def)
  moreover have "snd (parse_count ''open a:b'') = ''b''"
    by (simp add: parse_count_def string_defs)
  moreover have "cmd_run example_env open_cmd [''a:b''] None normal_world = (None, normal_world)"
    by (simp add: example_env_def)
  ultimately show ?thesis
    by (simp add: run_def sub_texts_def parse_open_example dispatch_def record_last_command_def
        resolved_count_def normal_world_def)
qed

subsection \<open>Chained commands\<close>

lemma split_chain_from_nonempty: "split_chain_from acc s \<noteq> []"
  by (induction acc s rule: split_chain_from.induct) auto

lemma split_chain_nonempty: "split_chain s \<noteq> []"
  by (simp add: split_chain_def split_chain_from_nonempty)

lemma parse_each_single:
  "parse_each env aliases fallback keep [t] =
     (case parse env t aliases fallback keep of Inl e \<Rightarrow> ([], Some e) | Inr r \<Rightarrow> ([r], None))"
  by (simp split: sum.splits)

text \<open>The loop of the generator ends without an exception exactly when every sub-text
  parses, and it has then yielded the results in order.\<close>

lemma parse_each_all:
  "(parse_each env aliases fallback keep subs = (rs, None)) =
     (map (\<lambda>s. parse env s aliases fallback keep) subs = map Inr rs)"
proof (induction subs arbitrary: rs)
  case Nil
  then show ?case by auto
next
  case (Cons sub subs)
  show ?case
  proof (cases "parse env sub aliases fallback keep")
    case (Inl e)
    then show ?thesis by (cases rs) auto
  next
    case (Inr r)
    obtain rs' e' where pe: "parse_each env aliases fallback keep subs = (rs', e')"
      by (cases "parse_each env aliases fallback keep subs") auto
    show ?thesis
    proof (cases rs)
      case Nil
      with Inr pe show ?thesis by simp
    next
      case (Cons r0 rs0)
      with Inr pe Cons.IH [of rs0] show ?thesis by auto
    qed
  qed
qed

text \<open>
  Claim C6, amended. When \<^verbatim>\<open>;;\<close> does not occur in the text, \<^verbatim>\<open>parse_all\<close> yields
  exactly the parse of the text (and fails as that parse fails). When it occurs,
  \<^verbatim>\<open>parse_all\<close> first parses the text before the first \<^verbatim>\<open>;;\<close>, as it stands; if that
  parse succeeds with a command whose \<^verbatim>\<open>no_cmd_split\<close> is true, \<^verbatim>\<open>parse_all\<close> yields
  exactly the parse of the entire text; if it succeeds with a command whose
  \<^verbatim>\<open>no_cmd_split\<close> is false, \<^verbatim>\<open>parse_all\<close> yields, in order, the parse of every
  whitespace-trimmed segment of the split on \<^verbatim>\<open>;;\<close>; if it fails, \<^verbatim>\<open>parse_all\<close> fails
  with its error and yields nothing.
\<close>

theorem parse_all_cases:
  "(\<not> contains_chain t \<longrightarrow>
      parse_all env t aliases fallback keep =
        (case parse env t aliases fallback keep of
           Inl e \<Rightarrow> ([], Some e) | Inr r \<Rightarrow> ([r], None))) \<and>
   (contains_chain t \<and> parse env (hd (split_chain t)) aliases fallback keep = Inr first \<and>
    cmd first = Some c \<and> no_cmd_split c \<longrightarrow>
      parse_all env t aliases fallback keep =
        (case parse env t aliases fallback keep of
           Inl e \<Rightarrow> ([], Some e) | Inr r \<Rightarrow> ([r], None))) \<and>
   (contains_chain t \<and> parse env (hd (split_chain t)) aliases fallback keep = Inr first \<and>
    cmd first = Some c \<and> \<not> no_cmd_split c \<longrightarrow>
      parse_all env t aliases fallback keep =
        parse_each env aliases fallback keep (map strip (split_chain t)) \<and>
      (\<forall>rs. (parse_all env t aliases fallback keep = (rs, None)) =
            (map (\<lambda>s. parse env s aliases fallback keep) (map strip (split_chain t))
               = map Inr rs))) \<and>
   (contains_chain t \<and> parse env (hd (split_chain t)) aliases fallback keep = Inl e \<longrightarrow>
      parse_all env t aliases fallback keep = ([], Some e))"
proof -
  let ?single = "case parse env t aliases fallback keep of
                   Inl e \<Rightarrow> ([], Some e) | Inr r \<Rightarrow> ([r], None)"
  let ?segments = "map strip (split_chain t)"
  obtain x xs where s: "split_chain t = x # xs"
    using split_chain_nonempty [of t] by (cases "split_chain t") auto
  have one: "parse_each env aliases fallback keep [t] = ?single"
    by (rule parse_each_single)
  have a: "\<not> contains_chain t \<longrightarrow> parse_all env t aliases fallback keep = ?single"
    using one by (simp add: parse_all_def sub_texts_def)
  have b: "contains_chain t \<and> parse env (hd (split_chain t)) aliases fallback keep = Inr first \<and>
      cmd first = Some c \<and> no_cmd_split c \<longrightarrow>
        parse_all env t aliases fallback keep = ?single"
    using one by (simp add: parse_all_def sub_texts_def s)
  have c1: "contains_chain t \<and> parse env (hd (split_chain t)) aliases fallback keep = Inr first \<and>
      cmd first = Some c \<and> \<not> no_cmd_split c \<longrightarrow>
        parse_all env t aliases fallback keep = parse_each env aliases fallback keep ?segments"
    by (simp add: parse_all_def sub_texts_def s)
  have c2: "contains_chain t \<and> parse env (hd (split_chain t)) aliases fallback keep = Inr first \<and>
      cmd first = Some c \<and> \<not> no_cmd_split c \<longrightarrow>
        (\<forall>rs. (parse_all env t aliases fallback keep = (rs, None)) =
              (map (\<lambda>s. parse env s aliases fallback keep) ?segments = map Inr rs))"
    using c1 parse_each_all [of env aliases fallback keep ?segments] by simp
  have d: "contains_chain t \<and> parse env (hd (split_chain t)) aliases fallback keep = Inl e \<longrightarrow>
      parse_all env t aliases fallback keep = ([], Some e)"
    by (simp add: parse_all_def sub_texts_def s)
  from a b c1 c2 d show ?thesis by blast
qed

lemma parse_chain_examples:
  "parse example_env ''foo'' True False False =
     Inr \<lparr>cmd = Some foo_cmd, args = Some [], cmdline = [''foo''], count = None\<rparr>"
  "parse example_env ''foo '' True False False =
     Inr \<lparr>cmd = Some foo_cmd, args = Some [], cmdline = [''foo''], count = None\<rparr>"
  "parse example_env ''quit'' True False False =
     Inr \<lparr>cmd = Some quit_cmd, args = Some [], cmdline = [''quit''], count = None\<rparr>"
  "parse example_env ''quit'' False False False =
     Inr \<lparr>cmd = Some quit_cmd, args = Some [], cmdline = [''quit''], count = None\<rparr>"
  "parse example_env ''bind a foo'' True False False =
     Inr \<lparr>cmd = Some bind_cmd, args = Some [''a'', ''foo''], cmdline = [''bind'', ''a'', ''foo''],
          count = None\<rparr>"
  "parse example_env ''bind a foo;;quit'' True False False =
     Inr \<lparr>cmd = Some bind_cmd, args = Some [''a'', ''foo;;quit''],
          cmdline = [''bind'', ''a'', ''foo;;quit''], count = None\<rparr>"
  "parse example_env '' foo'' True False False = Inl (NoSuchCommandError ''No command given'')"
  "parse example_env ''nosuch'' True False False =
     Inl (NoSuchCommandError ''nosuch: no such command'')"
  by (simp_all add: string_defs parser_defs example_defs)

lemma chain_examples:
  "contains_chain ''foo ;; quit''" "split_chain ''foo ;; quit'' = [''foo '', '' quit'']"
  "contains_chain ''bind a foo;;quit''" "split_chain ''bind a foo;;quit'' = [''bind a foo'', ''quit'']"
  "contains_chain '' foo;;quit''" "split_chain '' foo;;quit'' = ['' foo'', ''quit'']"
  "contains_chain ''nosuch;;quit''" "split_chain ''nosuch;;quit'' = [''nosuch'', ''quit'']"
  "\<not> contains_chain ''quit''"
  by (simp_all add: split_chain_def)

lemma strip_examples:
  "strip ''foo '' = ''foo''" "strip '' quit'' = ''quit''" "strip '' foo'' = ''foo''"
  "strip ''quit'' = ''quit''"
  by (simp_all add: string_defs)

theorem parse_all_cases_witness:
  "\<not> contains_chain ''quit'' \<and>
   parse_all example_env ''quit'' True False False =
     ([\<lparr>cmd = Some quit_cmd, args = Some [], cmdline = [''quit''], count = None\<rparr>], None) \<and>
   contains_chain ''bind a foo;;quit'' \<and> no_cmd_split bind_cmd \<and>
   parse_all example_env ''bind a foo;;quit'' True False False =
     ([\<lparr>cmd = Some bind_cmd, args = Some [''a'', ''foo;;quit''],
        cmdline = [''bind'', ''a'', ''foo;;quit''], count = None\<rparr>], None) \<and>
   contains_chain ''foo ;; quit'' \<and> \<not> no_cmd_split foo_cmd \<and>
   parse_all example_env ''foo ;; quit'' True False False =
     ([\<lparr>cmd = Some foo_cmd, args = Some [], cmdline = [''foo''], count = None\<rparr>,
       \<lparr>cmd = Some quit_cmd, args = Some [], cmdline = [''quit''], count = None\<rparr>], None) \<and>
   contains_chain ''nosuch;;quit'' \<and>
   parse_all example_env ''nosuch;;quit'' True False False =
     ([], Some (NoSuchCommandError ''nosuch: no such command''))"
proof -
  note w = parse_all_cases [where env = example_env and aliases = True and fallback = False
      and keep = False]
  from w [where t = "''quit''"] have a: "parse_all example_env ''quit'' True False False =
      ([\<lparr>cmd = Some quit_cmd, args = Some [], cmdline = [''quit''], count = None\<rparr>], None)"
    by (simp add: chain_examples parse_chain_examples)
  have nb: "no_cmd_split bind_cmd" by (simp add: bind_cmd_def)
  from w [where t = "''bind a foo;;quit''" and c = bind_cmd and first =
      "\<lparr>cmd = Some bind_cmd, args = Some [''a'', ''foo''], cmdline = [''bind'', ''a'', ''foo''],
        count = None\<rparr>"] nb
  have b: "parse_all example_env ''bind a foo;;quit'' True False False =
     ([\<lparr>cmd = Some bind_cmd, args = Some [''a'', ''foo;;quit''],
        cmdline = [''bind'', ''a'', ''foo;;quit''], count = None\<rparr>], None)"
    by (simp add: chain_examples parse_chain_examples)
  have nf: "\<not> no_cmd_split foo_cmd" by (simp add: foo_cmd_def)
  from w [where t = "''foo ;; quit''" and c = foo_cmd and first =
      "\<lparr>cmd = Some foo_cmd, args = Some [], cmdline = [''foo''], count = None\<rparr>"] nf
  have c: "parse_all example_env ''foo ;; quit'' True False False =
     ([\<lparr>cmd = Some foo_cmd, args = Some [], cmdline = [''foo''], count = None\<rparr>,
       \<lparr>cmd = Some quit_cmd, args = Some [], cmdline = [''quit''], count = None\<rparr>], None)"
    by (simp add: chain_examples parse_chain_examples strip_examples)
  from w [where t = "''nosuch;;quit''" and e = "NoSuchCommandError ''nosuch: no such command''"]
  have d: "parse_all example_env ''nosuch;;quit'' True False False =
     ([], Some (NoSuchCommandError ''nosuch: no such command''))"
    by (simp add: chain_examples parse_chain_examples)
  from a b c d nb nf show ?thesis by (simp add: chain_examples)
qed

text \<open>Claim C6 as stated: the text contains \<^verbatim>\<open>;;\<close>, its trimmed segments \<^verbatim>\<open>foo\<close> and
  \<^verbatim>\<open>quit\<close> both parse, \<^verbatim>\<open>foo\<close> does not ask for \<^verbatim>\<open>no_cmd_split\<close>, and \<^verbatim>\<open>parse_all\<close>
  yields no result: the untrimmed first segment has an empty command token.\<close>

theorem parse_all_untrimmed_first_counterexample:
  "contains_chain '' foo;;quit'' \<and>
   map strip (split_chain '' foo;;quit'') = [''foo'', ''quit''] \<and>
   parse example_env ''foo'' True False False =
     Inr \<lparr>cmd = Some foo_cmd, args = Some [], cmdline = [''foo''], count = None\<rparr> \<and>
   \<not> no_cmd_split foo_cmd \<and>
   parse example_env ''quit'' True False False =
     Inr \<lparr>cmd = Some quit_cmd, args = Some [], cmdline = [''quit''], count = None\<rparr> \<and>
   parse_all example_env '' foo;;quit'' True False False =
     ([], Some (NoSuchCommandError ''No command given''))"
proof -
  have "parse_all example_env '' foo;;quit'' True False False =
     ([], Some (NoSuchCommandError ''No command given''))"
    by (simp add: parse_all_def sub_texts_def chain_examples parse_chain_examples)
  moreover have "\<not> no_cmd_split foo_cmd" by (simp add: foo_cmd_def)
  ultimately show ?thesis
    by (simp add: chain_examples parse_chain_examples strip_examples)
qed

subsection \<open>Aliases\<close>

text \<open>With \<^verbatim>\<open>aliases=False\<close> the result of \<^verbatim>\<open>parse\<close> does not depend on the alias
  table.\<close>

lemma parse_command_aliases_irrelevant:
  "parse_command (env\<lparr>config_aliases := other\<rparr>) t cmdstr sep argstr cnt fallback keep =
     parse_command env t cmdstr sep argstr cnt fallback keep"
proof -
  have s: "split_args (env\<lparr>config_aliases := other\<rparr>) c argstr keep = split_args env c argstr keep"
    for c
    by (simp add: split_args_def Let_def split: option.splits)
  have m: "completion_match (env\<lparr>config_aliases := other\<rparr>) cmdstr = completion_match env cmdstr"
    by (simp add: completion_match_def)
  show ?thesis
    by (simp add: parse_command_def s m Let_def split: option.splits)
qed

lemma parse_without_aliases:
  "parse env t False fallback keep =
     (case partition_str t CHR '' '' of
        (cmdstr0, sep, argstr) \<Rightarrow>
          (case parse_count cmdstr0 of
             (cnt, cmdstr) \<Rightarrow>
               if cmdstr = [] \<and> \<not> fallback then Inl (NoSuchCommandError ''No command given'')
               else parse_command env t cmdstr sep argstr cnt fallback keep))"
  by (subst parse.simps) (simp split: prod.splits)

lemma parse_aliases_off:
  "parse (env\<lparr>config_aliases := other\<rparr>) t False fallback keep = parse env t False fallback keep"
  by (simp add: parse_without_aliases parse_command_aliases_irrelevant split: prod.splits)

text \<open>
  Claim C4 says that a text whose command token, after the count prefix is stripped, is an
  alias is parsed as the replacement. \<^verbatim>\<open>parse\<close> strips the count prefix before it looks
  the token up in the registry, but \<^verbatim>\<open>_get_alias\<close> gets the whole text and looks up its
  first word with the prefix: with the alias \<^verbatim>\<open>gq\<close> for \<^verbatim>\<open>quit\<close>, the texts \<^verbatim>\<open>gq\<close> and
  \<^verbatim>\<open>3:quit\<close> are parsed as \<^verbatim>\<open>quit\<close>, and \<^verbatim>\<open>3:gq\<close> fails with "gq: no such command".
\<close>

theorem parse_alias_count_prefix:
  "snd (parse_count (fst (partition_str ''3:gq'' CHR '' ''))) = ''gq'' \<and>
   config_aliases example_env ''gq'' = Some ''quit'' \<and>
   parse example_env ''quit'' False False False =
     Inr \<lparr>cmd = Some quit_cmd, args = Some [], cmdline = [''quit''], count = None\<rparr> \<and>
   parse example_env ''gq'' True False False =
     Inr \<lparr>cmd = Some quit_cmd, args = Some [], cmdline = [''quit''], count = None\<rparr> \<and>
   parse example_env ''3:quit'' True False False =
     Inr \<lparr>cmd = Some quit_cmd, args = Some [], cmdline = [''quit''], count = Some 3\<rparr> \<and>
   parse example_env ''3:gq'' True False False = Inl (NoSuchCommandError ''gq: no such command'')"
proof (intro conjI)
  show "snd (parse_count (fst (partition_str ''3:gq'' CHR '' ''))) = ''gq''"
    by (simp add: partition_str_def parse_count_def)
  show "config_aliases example_env ''gq'' = Some ''quit''"
    by (simp add: example_env_def)
  show "parse example_env ''quit'' False False False =
     Inr \<lparr>cmd = Some quit_cmd, args = Some [], cmdline = [''quit''], count = None\<rparr>"
    by (simp add: string_defs parser_defs example_defs)
  show "parse example_env ''gq'' True False False =
     Inr \<lparr>cmd = Some quit_cmd, args = Some [], cmdline = [''quit''], count = None\<rparr>"
    by (simp add: string_defs parser_defs example_defs)
  show "parse example_env ''3:quit'' True False False =
     Inr \<lparr>cmd = Some quit_cmd, args = Some [], cmdline = [''quit''], count = Some 3\<rparr>"
    by (simp add: string_defs parser_defs example_defs)
  show "parse example_env ''3:gq'' True False False =
     Inl (NoSuchCommandError ''gq: no such command'')"
    by (simp add: string_defs parser_defs example_defs)
qed

end
